theory Spec2Isabelle
  imports Complex_Main
begin

section \<open>State-of-health estimation notebook: data model\<close>

text \<open>
  The development follows \<^verbatim>\<open>2_run-asoh-estimation.ipynb\<close>. The notebook is glue around
  three external libraries (pandas, numpy, and the estimation library that supplies
  \<^verbatim>\<open>ECMASOH\<close>, \<^verbatim>\<open>ECMTransientVector\<close>, \<^verbatim>\<open>JointEstimator\<close> and \<^verbatim>\<open>run_online_estimate\<close>).
  What the notebook itself does is translated line by line; the library calls it makes
  are either modelled by their documented behaviour on the data the notebook handles
  (pandas, numpy) or taken as parameters (the estimation library). Two behaviours of
  the estimation library that the specification describes, the validation of the
  covariances and the lookup of the reference OCV curve, are modelled from the
  specification and marked so.

  Floating-point numbers are modelled as exact reals; a missing value (NaN) is \<open>None\<close>.
\<close>

subsection \<open>Exceptions\<close>

datatype error =
    LinAlgError
  | KeyError
  | IndexError
  | ValueError
  | NameError
  | FileNotFoundError
  | InvalidCovarianceError
  | OtherError

subsection \<open>Data frames\<close>

text \<open>
  A pandas frame with the default \<^verbatim>\<open>RangeIndex\<close>: row labels are the positions
  \<open>0 ..< nrows\<close>. That is the index of \<^verbatim>\<open>raw_data\<close> and \<^verbatim>\<open>cycle_stats\<close> as they are
  loaded, of the estimates frame \<^verbatim>\<open>run_online_estimate\<close> returns, and of every frame
  after \<^verbatim>\<open>reset_index()\<close>. Columns keep their order.
\<close>

type_synonym val = "real option"
type_synonym series = "val list"

record frame =
  nrows :: nat
  cols :: "(string \<times> series) list"

definition column_names :: "frame \<Rightarrow> string list" where
  "column_names d = map fst (cols d)"

text \<open>Aligning a series on a range index of \<open>n\<close> rows: labels without a value get NaN,
  values beyond the last label are dropped.\<close>

definition reindex :: "nat \<Rightarrow> series \<Rightarrow> series" where
  "reindex n vs = take n vs @ replicate (n - length vs) None"

text \<open>\<^verbatim>\<open>d[c]\<close>\<close>

definition df_getitem :: "frame \<Rightarrow> string \<Rightarrow> error + series" where
  "df_getitem d c = (case map_of (cols d) c of None \<Rightarrow> Inl KeyError | Some vs \<Rightarrow> Inr vs)"

text \<open>\<^verbatim>\<open>s.iloc[0]\<close>\<close>

definition iloc0 :: "series \<Rightarrow> error + val" where
  "iloc0 s = (case s of [] \<Rightarrow> Inl IndexError | v # _ \<Rightarrow> Inr v)"

text \<open>\<^verbatim>\<open>d.rename(columns=f)\<close>\<close>

definition df_rename :: "(string \<Rightarrow> string) \<Rightarrow> frame \<Rightarrow> frame" where
  "df_rename f d = d\<lparr>cols := map (\<lambda>(c, vs). (f c, vs)) (cols d)\<rparr>"

text \<open>\<^verbatim>\<open>l.join(r)\<close>: a left join on the index, with no suffixes given, so overlapping column
  names raise \<^verbatim>\<open>ValueError\<close>.\<close>

definition df_join :: "frame \<Rightarrow> frame \<Rightarrow> error + frame" where
  "df_join l r =
     (if list_ex (\<lambda>c. c \<in> set (column_names r)) (column_names l) then Inl ValueError
      else Inr (l\<lparr>cols := cols l @ map (\<lambda>(c, vs). (c, reindex (nrows l) vs)) (cols r)\<rparr>))"

text \<open>\<^verbatim>\<open>d[c] = s\<close>: the series is aligned on the frame's index; an existing column is
  replaced in place, a new one is appended.\<close>

definition df_setitem :: "frame \<Rightarrow> string \<Rightarrow> series \<Rightarrow> frame" where
  "df_setitem d c s =
     (if c \<in> set (column_names d)
      then d\<lparr>cols := map (\<lambda>(c', vs). if c' = c then (c', reindex (nrows d) s) else (c', vs)) (cols d)\<rparr>
      else d\<lparr>cols := cols d @ [(c, reindex (nrows d) s)]\<rparr>)"

text \<open>\<^verbatim>\<open>d.drop(columns=cs)\<close>\<close>

definition df_drop :: "string list \<Rightarrow> frame \<Rightarrow> error + frame" where
  "df_drop cs d =
     (if list_all (\<lambda>c. c \<in> set (column_names d)) cs
      then Inr (d\<lparr>cols := filter (\<lambda>(c, vs). c \<notin> set cs) (cols d)\<rparr>)
      else Inl KeyError)"

fun dropna :: "series \<Rightarrow> real list" where
  "dropna [] = []"
| "dropna (None # vs) = dropna vs"
| "dropna (Some x # vs) = x # dropna vs"

text \<open>\<^verbatim>\<open>s.mean()\<close>: NaN entries are skipped; the mean of nothing is NaN.\<close>

definition mean :: "series \<Rightarrow> val" where
  "mean vs = (let xs = dropna vs in if xs = [] then None else Some (sum_list xs / real (length xs)))"

text \<open>The rows of a series whose key equals \<open>g\<close>.\<close>

definition group_rows :: "series \<Rightarrow> real \<Rightarrow> series \<Rightarrow> series" where
  "group_rows keys g vs = map snd (filter (\<lambda>(k, v). k = Some g) (zip keys vs))"

text \<open>The group keys of \<^verbatim>\<open>groupby\<close>: the distinct non-NaN key values, sorted.\<close>

definition group_keys :: "series \<Rightarrow> real list" where
  "group_keys keys = sort (remdups (dropna keys))"

text \<open>\<^verbatim>\<open>d.groupby(key).mean().reset_index()\<close>: one row per group key in increasing order,
  the key as first column, then the mean of every other column over the group's rows.\<close>

definition df_groupby_mean_reset_index :: "string \<Rightarrow> frame \<Rightarrow> error + frame" where
  "df_groupby_mean_reset_index key d =
     (case map_of (cols d) key of
        None \<Rightarrow> Inl KeyError
      | Some keys \<Rightarrow>
          let gs = group_keys keys in
          Inr \<lparr>nrows = length gs,
               cols = (key, map Some gs) #
                      map (\<lambda>(c, vs). (c, map (\<lambda>g. mean (group_rows keys g vs)) gs))
                          (filter (\<lambda>(c, vs). c \<noteq> key) (cols d))\<rparr>)"

subsection \<open>Battery datasets\<close>

record dataset =
  raw_data :: frame
  cycle_stats :: frame

text \<open>The column renaming \<^verbatim>\<open>lambda x: f'est_{x}'\<close>.\<close>

definition est_name :: "string \<Rightarrow> string" where
  "est_name x = ''est_'' @ x"

text \<open>
  The tail of the loop body, after \<^verbatim>\<open>run_online_estimate\<close> has returned \<^verbatim>\<open>output\<close>:
  \<^verbatim>\<open>
    cell.raw_data = cell.raw_data.join(output.rename(columns=lambda x: f'est_{x}'))
    output['cycle_number'] = cell.raw_data['cycle_number']
    by_cycle = output.groupby('cycle_number').mean().reset_index()
    cell.cycle_stats = cell.cycle_stats.join(
        by_cycle.drop(columns=['cycle_number']).rename(columns=lambda x: f'est_{x}'))
  \<close>
\<close>

definition append_estimates :: "dataset \<Rightarrow> frame \<Rightarrow> error + dataset" where
  "append_estimates cell output =
     (case df_join (raw_data cell) (df_rename est_name output) of
        Inl e \<Rightarrow> Inl e
      | Inr raw' \<Rightarrow>
     (case df_getitem raw' ''cycle_number'' of
        Inl e \<Rightarrow> Inl e
      | Inr cn \<Rightarrow>
     (case df_groupby_mean_reset_index ''cycle_number'' (df_setitem output ''cycle_number'' cn) of
        Inl e \<Rightarrow> Inl e
      | Inr by_cycle \<Rightarrow>
     (case df_drop [''cycle_number''] by_cycle of
        Inl e \<Rightarrow> Inl e
      | Inr dropped \<Rightarrow>
     (case df_join (cycle_stats cell) (df_rename est_name dropped) of
        Inl e \<Rightarrow> Inl e
      | Inr stats' \<Rightarrow> Inr \<lparr>raw_data = raw', cycle_stats = stats'\<rparr>)))))"

subsection \<open>numpy arrays\<close>

type_synonym matrix = "real list list"

text \<open>\<^verbatim>\<open>a.item()\<close>: the single element of an array of size one.\<close>

definition np_item :: "real list \<Rightarrow> error + real" where
  "np_item a = (case a of [x] \<Rightarrow> Inr x | _ \<Rightarrow> Inl ValueError)"

text \<open>\<^verbatim>\<open>np.diag(v)\<close> for a one-dimensional \<open>v\<close>, \<^verbatim>\<open>np.eye(n)\<close> and \<^verbatim>\<open>c * M\<close>.\<close>

definition np_diag :: "real list \<Rightarrow> matrix" where
  "np_diag v = map (\<lambda>i. map (\<lambda>j. if i = j then v ! i else 0) [0..<length v]) [0..<length v]"

definition np_eye :: "nat \<Rightarrow> matrix" where
  "np_eye n = map (\<lambda>i. map (\<lambda>j. if i = j then 1 else 0) [0..<n]) [0..<n]"

definition scale :: "real \<Rightarrow> matrix \<Rightarrow> matrix" where
  "scale c M = map (map (\<lambda>x. c * x)) M"

subsection \<open>Health parameters and transient state\<close>

text \<open>
  The fields of \<^verbatim>\<open>ECMASOH\<close> the notebook reads or writes: \<^verbatim>\<open>q_t.base_values\<close>,
  \<^verbatim>\<open>r0.base_values\<close> (flattened), the reference OCV table
  \<^verbatim>\<open>ocv.ocv_ref.soc_pinpoints\<close> / \<^verbatim>\<open>ocv.ocv_ref.base_values\<close> (a two-dimensional array),
  its interpolation style, and the names marked updatable.
\<close>

record ecmasoh =
  q_t_base_values :: "real list"
  r0_base_values :: "real list"
  ocv_ref_soc_pinpoints :: "real list"
  ocv_ref_base_values :: "real list list"
  ocv_ref_interpolation_style :: string
  updatable_names :: "string set"

definition mark_updatable :: "string \<Rightarrow> ecmasoh \<Rightarrow> ecmasoh" where
  "mark_updatable name a = a\<lparr>updatable_names := insert name (updatable_names a)\<rparr>"

text \<open>
  The configuration cell, after \<^verbatim>\<open>initial_asoh\<close> has been parsed and
  \<^verbatim>\<open>initial_asoh.ocv(0.5)\<close> has made the library fill in the pinpoints:
  \<^verbatim>\<open>
    soc_pinpoints = [-0.1] + initial_asoh.ocv.ocv_ref.soc_pinpoints.flatten().tolist() + [1.1]
    base_vals = [0.] + initial_asoh.ocv.ocv_ref.base_values.flatten().tolist() + [6.5]
    initial_asoh.ocv.ocv_ref.base_values = np.array([base_vals])
    initial_asoh.ocv.ocv_ref.soc_pinpoints = np.array(soc_pinpoints)
    initial_asoh.ocv.ocv_ref.interpolation_style='linear'
    initial_asoh.mark_updatable('r0.base_values')
    initial_asoh.mark_updatable('q_t.base_values')
  \<close>
\<close>

definition fix_reference_ocv :: "ecmasoh \<Rightarrow> ecmasoh" where
  "fix_reference_ocv a =
     (let soc_pinpoints = [- (1 / 10)] @ ocv_ref_soc_pinpoints a @ [11 / 10];
          base_vals = [0] @ concat (ocv_ref_base_values a) @ [65 / 10]
      in mark_updatable ''q_t.base_values''
           (mark_updatable ''r0.base_values''
              (a\<lparr>ocv_ref_base_values := [base_vals],
                 ocv_ref_soc_pinpoints := soc_pinpoints,
                 ocv_ref_interpolation_style := ''linear''\<rparr>)))"

record ecm_transient =
  soc :: "real list list"
  q0 :: "real list list"
  i_rc :: "real list list"
  hyst :: "real list list"

record ecm_input =
  time :: val
  current :: val

datatype cell_model = EquivalentCircuitModel

subsection \<open>Objects and references\<close>

text \<open>
  \<^verbatim>\<open>ECMASOH\<close> and \<^verbatim>\<open>ECMTransientVector\<close> objects are mutable and passed by reference, so
  they live in a store: a reference is a position in the list of objects of its class,
  and a new object takes the next position. An \<^verbatim>\<open>ECMASOH\<close> entry holds the whole value
  of the object with everything it owns (its arrays included).
\<close>

record heap =
  asohs :: "ecmasoh list"
  transients :: "ecm_transient list"

definition new_transient :: "ecm_transient \<Rightarrow> heap \<Rightarrow> nat \<times> heap" where
  "new_transient t h = (length (transients h), h\<lparr>transients := transients h @ [t]\<rparr>)"

text \<open>\<^verbatim>\<open>a.model_copy(deep=True)\<close>: a new object that shares nothing with \<open>a\<close>.\<close>

definition model_copy_deep :: "nat \<Rightarrow> heap \<Rightarrow> nat \<times> heap" where
  "model_copy_deep a h = (length (asohs h), h\<lparr>asohs := asohs h @ [asohs h ! a]\<rparr>)"

subsection \<open>The estimator\<close>

text \<open>
  An estimator is represented by the keyword arguments the notebook hands to
  \<^verbatim>\<open>JointEstimator.initialize_unscented_kalman_filter\<close>; \<open>initial_asoh\<close> and
  \<open>initial_transients\<close> are references to the objects the filter works on.
\<close>

record estimator =
  cell_model :: cell_model
  initial_asoh :: nat
  initial_inputs :: ecm_input
  initial_transients :: nat
  covariance_asoh :: matrix
  covariance_transient :: matrix
  transient_covariance_process_noise :: matrix
  asoh_covariance_process_noise :: matrix
  covariance_sensor_noise :: matrix

text \<open>
  The estimation library, as far as the notebook calls it. \<open>from_asoh\<close> builds the
  transient state for a parameter set and keeps no reference to it.
  \<open>run_online_estimate\<close> receives the dataset and the estimator, reads the filter's
  working objects, and either returns the frame of estimates or raises; either way it
  may have changed the working objects (and only those), whose final values are its
  second and third results.
\<close>

record env =
  from_asoh :: "ecmasoh \<Rightarrow> ecm_transient"
  run_online_estimate ::
    "dataset \<Rightarrow> estimator \<Rightarrow> ecmasoh \<Rightarrow> ecm_transient \<Rightarrow> (error + frame) \<times> ecmasoh \<times> ecm_transient"

text \<open>\<^verbatim>\<open>dataset.raw_data[c].iloc[0]\<close>\<close>

definition raw_data_iloc0 :: "dataset \<Rightarrow> string \<Rightarrow> error + val" where
  "raw_data_iloc0 dataset c =
     (case df_getitem (raw_data dataset) c of Inl e \<Rightarrow> Inl e | Inr s \<Rightarrow> iloc0 s)"

text \<open>
  \<^verbatim>\<open>create_estimator(dataset)\<close>. The module-level variable \<^verbatim>\<open>initial_asoh\<close> is the
  reference \<open>ia\<close>; reading it before the configuration cell has run is a \<^verbatim>\<open>NameError\<close>.
  The arguments of the factory call are evaluated in the order they are written.
\<close>

definition create_estimator :: "env \<Rightarrow> nat \<Rightarrow> dataset \<Rightarrow> heap \<Rightarrow> (error + estimator) \<times> heap" where
  "create_estimator env ia dataset h =
     (if length (asohs h) \<le> ia then (Inl NameError, h)
      else
        let a = asohs h ! ia in
        case np_item (q_t_base_values a) of
          Inl e \<Rightarrow> (Inl e, h)
        | Inr q \<Rightarrow>
            let asoh_covariance =
                  np_diag ([(25 / 10000 * q) ^ 2] @ map (\<lambda>r. (25 / 10000 * r) ^ 2) (r0_base_values a));
                (init_transients, h1) = new_transient (from_asoh env a) h;
                h2 = h1\<lparr>transients := (transients h1)[init_transients :=
                         (transients h1 ! init_transients)\<lparr>soc := [[1]]\<rparr>]\<rparr>;
                tran_covariance = np_diag [1 / 12, 25 / 10 ^ 8];
                voltage_err = 1 / 1000;
                noise_sensor = scale ((voltage_err / 2) ^ 2) (np_eye 1);
                noise_asoh = scale (1 / 10 ^ 10) (np_eye (length asoh_covariance));
                noise_tran = scale (1 / 10 ^ 8) (np_eye 2);
                (asoh_copy, h3) = model_copy_deep ia h2
            in
            (case raw_data_iloc0 dataset ''test_time'' of
              Inl e \<Rightarrow> (Inl e, h3)
            | Inr t0 \<Rightarrow>
            (case raw_data_iloc0 dataset ''current'' of
              Inl e \<Rightarrow> (Inl e, h3)
            | Inr c0 \<Rightarrow>
                (Inr \<lparr>cell_model = EquivalentCircuitModel,
                      initial_asoh = asoh_copy,
                      initial_inputs = \<lparr>time = t0, current = c0\<rparr>,
                      initial_transients = init_transients,
                      covariance_asoh = asoh_covariance,
                      covariance_transient = tran_covariance,
                      transient_covariance_process_noise = noise_tran,
                      asoh_covariance_process_noise = noise_asoh,
                      covariance_sensor_noise = noise_sensor\<rparr>, h3))))"

subsection \<open>The batch loop\<close>

text \<open>
  The world the loop runs in: the HDF5 files by path, what has been printed, the object
  store, and the calls made to \<^verbatim>\<open>run_online_estimate\<close> so far (the path of the cell, the
  estimator, and the values of the filter's working objects when the call starts).
\<close>

record world =
  files :: "string \<rightharpoonup> dataset"
  stdout :: "string list"
  heap :: heap
  runs :: "(string \<times> estimator \<times> ecmasoh \<times> ecm_transient) list"

text \<open>The components of a recorded call.\<close>

definition run_path :: "string \<times> estimator \<times> ecmasoh \<times> ecm_transient \<Rightarrow> string" where
  "run_path r = fst r"

definition run_estimator :: "string \<times> estimator \<times> ecmasoh \<times> ecm_transient \<Rightarrow> estimator" where
  "run_estimator r = fst (snd r)"

definition run_asoh :: "string \<times> estimator \<times> ecmasoh \<times> ecm_transient \<Rightarrow> ecmasoh" where
  "run_asoh r = fst (snd (snd r))"

definition run_transients :: "string \<times> estimator \<times> ecmasoh \<times> ecm_transient \<Rightarrow> ecm_transient" where
  "run_transients r = snd (snd (snd r))"

text \<open>\<^verbatim>\<open>path.name\<close>: the last component of a path.\<close>

definition path_name :: "string \<Rightarrow> string" where
  "path_name p = rev (takeWhile (\<lambda>c. c \<noteq> CHR ''/'') (rev p))"

text \<open>\<^verbatim>\<open>estimate_dir / path.name\<close> with \<^verbatim>\<open>estimate_dir = Path('estimates')\<close>.\<close>

definition out_path :: "string \<Rightarrow> string" where
  "out_path p = ''estimates/'' @ path_name p"

definition from_batdata_hdf :: "world \<Rightarrow> string \<Rightarrow> error + dataset" where
  "from_batdata_hdf w p = (case files w p of None \<Rightarrow> Inl FileNotFoundError | Some d \<Rightarrow> Inr d)"

text \<open>The call \<^verbatim>\<open>run_online_estimate(cell, estimator)\<close> with its effect on the store. The
  references of an estimator made by \<^verbatim>\<open>create_estimator\<close> are positions of the store.\<close>

definition call_run_online_estimate ::
    "env \<Rightarrow> string \<Rightarrow> dataset \<Rightarrow> estimator \<Rightarrow> world \<Rightarrow> (error + frame) \<times> world" where
  "call_run_online_estimate env p cell est w =
     (let a = asohs (heap w) ! initial_asoh est;
          t = transients (heap w) ! initial_transients est;
          (res, a', t') = run_online_estimate env cell est a t
      in (res, w\<lparr>heap := \<lparr>asohs = (asohs (heap w))[initial_asoh est := a'],
                          transients = (transients (heap w))[initial_transients est := t']\<rparr>,
                 runs := runs w @ [(p, est, a, t)]\<rparr>))"

text \<open>One iteration either goes on to the next path or lets an exception escape, which
  ends the loop.\<close>

datatype iteration = Next world | Raised error world

definition failure_message :: "string \<Rightarrow> string" where
  "failure_message p = ''Cell '' @ p @ '' failed due to linear algebra error''"

definition loop_body :: "env \<Rightarrow> nat \<Rightarrow> string \<Rightarrow> world \<Rightarrow> iteration" where
  "loop_body env ia p w =
     (if files w (out_path p) \<noteq> None then Next w
      else
        case from_batdata_hdf w p of
          Inl e \<Rightarrow> Raised e w
        | Inr cell \<Rightarrow>
        (case create_estimator env ia cell (heap w) of
          (Inl e, h) \<Rightarrow> Raised e (w\<lparr>heap := h\<rparr>)
        | (Inr est, h) \<Rightarrow>
        (case call_run_online_estimate env p cell est (w\<lparr>heap := h\<rparr>) of
          (Inl e, w') \<Rightarrow>
            if e = LinAlgError then Next (w'\<lparr>stdout := stdout w' @ [failure_message p]\<rparr>)
            else Raised e w'
        | (Inr output, w') \<Rightarrow>
        (case append_estimates cell output of
          Inl e \<Rightarrow> Raised e w'
        | Inr cell' \<Rightarrow> Next (w'\<lparr>files := (files w')(out_path p \<mapsto> cell')\<rparr>)))))"

text \<open>\<^verbatim>\<open>for path in all_cells: ...\<close>; the first component is the exception that ended the
  loop, if one did.\<close>

fun batch_loop :: "env \<Rightarrow> nat \<Rightarrow> string list \<Rightarrow> world \<Rightarrow> error option \<times> world" where
  "batch_loop env ia [] w = (None, w)"
| "batch_loop env ia (p # ps) w =
     (case loop_body env ia p w of
        Raised e w' \<Rightarrow> (Some e, w')
      | Next w' \<Rightarrow> batch_loop env ia ps w')"

definition world_of :: "iteration \<Rightarrow> world" where
  "world_of r = (case r of Next w \<Rightarrow> w | Raised e w \<Rightarrow> w)"

subsection \<open>Covariance matrices\<close>

definition is_square :: "matrix \<Rightarrow> bool" where
  "is_square M = list_all (\<lambda>row. length row = length M) M"

definition is_symmetric :: "matrix \<Rightarrow> bool" where
  "is_symmetric M =
     (is_square M \<and>
      list_all (\<lambda>i. list_all (\<lambda>j. M ! i ! j = M ! j ! i) [0..<length M]) [0..<length M])"

text \<open>Diagonal with non-negative diagonal entries.\<close>

definition diagonal_nonneg :: "matrix \<Rightarrow> bool" where
  "diagonal_nonneg M =
     (is_square M \<and>
      list_all (\<lambda>i. list_all (\<lambda>j. if i = j then 0 \<le> M ! i ! j else M ! i ! j = 0)
                       [0..<length M]) [0..<length M])"

text \<open>The quadratic form \<open>x\<^sup>T M x\<close>, and positive semi-definiteness.\<close>

definition quad_form :: "matrix \<Rightarrow> real list \<Rightarrow> real" where
  "quad_form M x = (\<Sum>i<length M. \<Sum>j<length M. x ! i * (M ! i ! j) * x ! j)"

definition positive_semidefinite :: "matrix \<Rightarrow> bool" where
  "positive_semidefinite M = (\<forall>x. length x = length M \<longrightarrow> 0 \<le> quad_form M x)"

text \<open>The five covariance arguments of the factory call.\<close>

definition covariances :: "estimator \<Rightarrow> matrix list" where
  "covariances est =
     [covariance_asoh est, covariance_transient est, transient_covariance_process_noise est,
      asoh_covariance_process_noise est, covariance_sensor_noise est]"

text \<open>
  Modelled from the spec: the validation done by the factory
  \<^verbatim>\<open>JointEstimator.initialize_unscented_kalman_filter\<close>, which belongs to the estimation
  library and is not part of the notebook. The specification says: all covariances must
  be symmetric positive semi-definite; violating this fails with
  \<^verbatim>\<open>InvalidCovarianceError\<close>.
\<close>

definition valid_covariance :: "matrix \<Rightarrow> bool" where
  "valid_covariance M = (is_symmetric M \<and> positive_semidefinite M)"

text \<open>
  Modelled from the spec: the outcome of the factory call, which is not part of the
  notebook, as far as the specification gives it: \<^verbatim>\<open>InvalidCovarianceError\<close> when one of
  the covariances is not valid, the initialised filter otherwise.
\<close>

definition initialize_unscented_kalman_filter :: "estimator \<Rightarrow> error + estimator" where
  "initialize_unscented_kalman_filter est =
     (if list_all valid_covariance (covariances est) then Inr est
      else Inl InvalidCovarianceError)"

subsection \<open>Reference OCV lookup\<close>

text \<open>
  Modelled from the spec: the lookup of the reference OCV curve, which belongs to the
  estimation library and is not part of the notebook. With the interpolation style
  \<^verbatim>\<open>linear\<close> the value at a state of charge is interpolated between the two pinpoints
  that bracket it; a query that no pair of neighbouring pinpoints brackets (one outside
  the table) or a table whose pinpoints and values do not match fails.
\<close>

fun interp_linear :: "real list \<Rightarrow> real list \<Rightarrow> real \<Rightarrow> error + real" where
  "interp_linear (x0 # x1 # xs) (y0 # y1 # ys) s =
     (if x0 \<le> s \<and> s \<le> x1 \<and> x0 < x1 then Inr (y0 + (s - x0) * (y1 - y0) / (x1 - x0))
      else interp_linear (x1 # xs) (y1 # ys) s)"
| "interp_linear xs ys s = Inl ValueError"

text \<open>
  Modelled from the spec: the evaluation of the reference OCV curve of a parameter set
  at a state of charge, which is not part of the notebook: the linear lookup in its
  table, for the interpolation style \<^verbatim>\<open>linear\<close> and a table with one row of base values
  as long as the pinpoints.
\<close>

definition ocv_ref :: "ecmasoh \<Rightarrow> real \<Rightarrow> error + real" where
  "ocv_ref a s =
     (case ocv_ref_base_values a of
        [base] \<Rightarrow>
          if ocv_ref_interpolation_style a = ''linear''
             \<and> length base = length (ocv_ref_soc_pinpoints a)
          then interp_linear (ocv_ref_soc_pinpoints a) base s
          else Inl ValueError
      | _ \<Rightarrow> Inl ValueError)"

subsection \<open>Concrete inputs\<close>

text \<open>A small parameter set, as parsed from \<^verbatim>\<open>initial-asoh.json\<close>, and the store after
  the configuration cell: \<^verbatim>\<open>initial_asoh\<close> is the object at reference \<open>0\<close>.\<close>

definition asoh0 :: ecmasoh where
  "asoh0 = \<lparr>q_t_base_values = [10], r0_base_values = [1 / 100, 2 / 100],
            ocv_ref_soc_pinpoints = [0, 1], ocv_ref_base_values = [[3, 4]],
            ocv_ref_interpolation_style = ''linear'', updatable_names = {}\<rparr>"

definition tran0 :: ecm_transient where
  "tran0 = \<lparr>soc = [[0]], q0 = [], i_rc = [], hyst = [[0]]\<rparr>"

definition heap0 :: heap where
  "heap0 = \<lparr>asohs = [fix_reference_ocv asoh0], transients = []\<rparr>"

text \<open>Two cells that agree on their first sample only.\<close>

definition data1 :: dataset where
  "data1 =
     \<lparr>raw_data = \<lparr>nrows = 2,
                   cols = [(''test_time'', [Some 0, Some 1]), (''current'', [Some 2, Some 3]),
                           (''cycle_number'', [Some 0, Some 0])]\<rparr>,
      cycle_stats = \<lparr>nrows = 1, cols = [(''cycle_number'', [Some 0])]\<rparr>\<rparr>"

definition data2 :: dataset where
  "data2 =
     \<lparr>raw_data = \<lparr>nrows = 3,
                   cols = [(''test_time'', [Some 0, Some 5, Some 9]),
                           (''current'', [Some 2, Some 7, Some 7]),
                           (''cycle_number'', [Some 0, Some 0, Some 1])]\<rparr>,
      cycle_stats = \<lparr>nrows = 2, cols = [(''cycle_number'', [Some 0, Some 1])]\<rparr>\<rparr>"

text \<open>An estimation library whose run returns one estimated dimension \<open>soc\<close> with its
  standard deviation and moves the working objects, and one whose run raises
  \<^verbatim>\<open>LinAlgError\<close> after having moved them.\<close>

definition moved_asoh :: "ecmasoh \<Rightarrow> ecmasoh" where
  "moved_asoh a = a\<lparr>q_t_base_values := [9], r0_base_values := map (\<lambda>r. 2 * r) (r0_base_values a)\<rparr>"

definition moved_transient :: "ecm_transient \<Rightarrow> ecm_transient" where
  "moved_transient t = t\<lparr>soc := [[1 / 2]]\<rparr>"

definition env_ok :: env where
  "env_ok =
     \<lparr>from_asoh = (\<lambda>a. tran0),
      run_online_estimate = (\<lambda>cell est a t.
        (Inr \<lparr>nrows = nrows (raw_data cell),
              cols = [(''soc'', replicate (nrows (raw_data cell)) (Some 1)),
                      (''soc_std'', replicate (nrows (raw_data cell)) (Some (1 / 10)))]\<rparr>,
         moved_asoh a, moved_transient t))\<rparr>"

definition env_fail :: env where
  "env_fail =
     \<lparr>from_asoh = (\<lambda>a. tran0),
      run_online_estimate = (\<lambda>cell est a t. (Inl LinAlgError, moved_asoh a, moved_transient t))\<rparr>"

text \<open>Estimates for the first cell: one state dimension \<open>soc\<close> with its standard
  deviation, one row per sample.\<close>

definition output1 :: frame where
  "output1 = \<lparr>nrows = 2, cols = [(''soc'', [Some (9 / 10), Some (8 / 10)]),
                                 (''soc_std'', [Some (1 / 10), Some (2 / 10)])]\<rparr>"

text \<open>A cell without the column \<^verbatim>\<open>cycle_number\<close>.\<close>

definition data3 :: dataset where
  "data3 =
     \<lparr>raw_data = \<lparr>nrows = 1, cols = [(''test_time'', [Some 0]), (''current'', [Some 2])]\<rparr>,
      cycle_stats = \<lparr>nrows = 1, cols = [(''cycle_number'', [Some 0])]\<rparr>\<rparr>"

text \<open>The world before the first pass of the loop, and one in which the output file of
  the first cell exists already.\<close>

definition world0 :: world where
  "world0 =
     \<lparr>files = [''synth-data/a.hdf5'' \<mapsto> data1, ''synth-data/b.hdf5'' \<mapsto> data2,
               ''synth-data/c.hdf5'' \<mapsto> data3],
      stdout = [], heap = heap0, runs = []\<rparr>"

definition world1 :: world where
  "world1 = world0\<lparr>files := (files world0)(''estimates/a.hdf5'' \<mapsto> data2)\<rparr>"

text \<open>A cell whose samples belong to cycles 0 and 2 (no sample of cycle 1 is left in
  \<^verbatim>\<open>raw_data\<close>), with one row of \<^verbatim>\<open>cycle_stats\<close> per cycle 0, 1, 2, and the estimates of
  a run on it.\<close>

definition cell_gap :: dataset where
  "cell_gap =
     \<lparr>raw_data = \<lparr>nrows = 3,
                   cols = [(''test_time'', [Some 0, Some 1, Some 2]),
                           (''current'', [Some 1, Some 1, Some 1]),
                           (''cycle_number'', [Some 0, Some 0, Some 2])]\<rparr>,
      cycle_stats = \<lparr>nrows = 3, cols = [(''cycle_number'', [Some 0, Some 1, Some 2])]\<rparr>\<rparr>"

definition output_gap :: frame where
  "output_gap = \<lparr>nrows = 3, cols = [(''soc'', [Some 10, Some 20, Some 60]),
                                   (''soc_std'', [Some 1, Some 3, Some 5])]\<rparr>"

section \<open>Properties\<close>

subsection \<open>The store and the loop body\<close>

text \<open>What \<^verbatim>\<open>create_estimator\<close> and the call of \<^verbatim>\<open>run_online_estimate\<close> do to the store, and
  the paths through one iteration of the loop.\<close>

lemma create_estimator_Inr:
  assumes "create_estimator env ia d h = (Inr est, h')"
  shows "ia < length (asohs h)
    \<and> initial_asoh est = length (asohs h)
    \<and> initial_transients est = length (transients h)
    \<and> asohs h' = asohs h @ [asohs h ! ia]
    \<and> transients h' = transients h @ [(from_asoh env (asohs h ! ia))\<lparr>soc := [[1]]\<rparr>]"
  using assms
  by (auto simp: create_estimator_def Let_def new_transient_def model_copy_deep_def
           split: if_splits sum.splits)

lemma create_estimator_store:
  assumes "create_estimator env ia d h = (r, h')"
  shows "(\<exists>xs. asohs h' = asohs h @ xs) \<and> (\<exists>ts. transients h' = transients h @ ts)"
  using assms
  by (auto simp: create_estimator_def Let_def new_transient_def model_copy_deep_def
           split: if_splits sum.splits)

lemma call_run_online_estimate_world:
  assumes "call_run_online_estimate env p cell est w = (r, w')"
  shows "files w' = files w \<and> stdout w' = stdout w
    \<and> asohs (heap w') = (asohs (heap w))[initial_asoh est := fst (snd (run_online_estimate env cell est
          (asohs (heap w) ! initial_asoh est) (transients (heap w) ! initial_transients est)))]
    \<and> transients (heap w') = (transients (heap w))[initial_transients est := snd (snd (run_online_estimate env cell est
          (asohs (heap w) ! initial_asoh est) (transients (heap w) ! initial_transients est)))]
    \<and> runs w' = runs w @ [(p, est, asohs (heap w) ! initial_asoh est, transients (heap w) ! initial_transients est)]
    \<and> r = fst (run_online_estimate env cell est
          (asohs (heap w) ! initial_asoh est) (transients (heap w) ! initial_transients est))"
  using assms
  by (auto simp: call_run_online_estimate_def Let_def split: prod.splits)

lemma loop_body_cases:
  obtains
    (skipped) "files w (out_path p) \<noteq> None" "loop_body env ia p w = Next w"
  | (unreadable) e where "files w (out_path p) = None" "from_batdata_hdf w p = Inl e"
      "loop_body env ia p w = Raised e w"
  | (no_estimator) cell e h where "files w (out_path p) = None" "from_batdata_hdf w p = Inr cell"
      "create_estimator env ia cell (heap w) = (Inl e, h)"
      "loop_body env ia p w = Raised e (w\<lparr>heap := h\<rparr>)"
  | (linalg) cell est h w' where "files w (out_path p) = None" "from_batdata_hdf w p = Inr cell"
      "create_estimator env ia cell (heap w) = (Inr est, h)"
      "call_run_online_estimate env p cell est (w\<lparr>heap := h\<rparr>) = (Inl LinAlgError, w')"
      "loop_body env ia p w = Next (w'\<lparr>stdout := stdout w' @ [failure_message p]\<rparr>)"
  | (run_raised) cell est h e w' where "files w (out_path p) = None" "from_batdata_hdf w p = Inr cell"
      "create_estimator env ia cell (heap w) = (Inr est, h)"
      "call_run_online_estimate env p cell est (w\<lparr>heap := h\<rparr>) = (Inl e, w')" "e \<noteq> LinAlgError"
      "loop_body env ia p w = Raised e w'"
  | (append_raised) cell est h outp e w' where "files w (out_path p) = None" "from_batdata_hdf w p = Inr cell"
      "create_estimator env ia cell (heap w) = (Inr est, h)"
      "call_run_online_estimate env p cell est (w\<lparr>heap := h\<rparr>) = (Inr outp, w')"
      "append_estimates cell outp = Inl e"
      "loop_body env ia p w = Raised e w'"
  | (written) cell est h outp cell' w' where "files w (out_path p) = None" "from_batdata_hdf w p = Inr cell"
      "create_estimator env ia cell (heap w) = (Inr est, h)"
      "call_run_online_estimate env p cell est (w\<lparr>heap := h\<rparr>) = (Inr outp, w')"
      "append_estimates cell outp = Inr cell'"
      "loop_body env ia p w = Next (w'\<lparr>files := (files w')(out_path p \<mapsto> cell')\<rparr>)"
proof (cases "files w (out_path p) \<noteq> None")
  case True
  then show ?thesis using skipped by (simp add: loop_body_def)
next
  case nofile: False
  show ?thesis
  proof (cases "from_batdata_hdf w p")
    case (Inl e)
    then show ?thesis using nofile unreadable by (simp add: loop_body_def)
  next
    case (Inr cell)
    note rd = this
    obtain r h where ce: "create_estimator env ia cell (heap w) = (r, h)" by fastforce
    show ?thesis
    proof (cases r)
      case (Inl e)
      then show ?thesis using nofile rd ce no_estimator by (simp add: loop_body_def)
    next
      case (Inr est)
      note ce' = ce [unfolded Inr]
      obtain ro w' where run: "call_run_online_estimate env p cell est (w\<lparr>heap := h\<rparr>) = (ro, w')"
        by fastforce
      show ?thesis
      proof (cases ro)
        case (Inl e)
        show ?thesis
        proof (cases "e = LinAlgError")
          case True
          then show ?thesis using nofile rd ce' run Inl linalg by (simp add: loop_body_def)
        next
          case False
          then show ?thesis using nofile rd ce' run Inl run_raised by (simp add: loop_body_def)
        qed
      next
        case (Inr outp)
        note run' = run [unfolded Inr]
        show ?thesis
        proof (cases "append_estimates cell outp")
          case (Inl e)
          then show ?thesis using nofile rd ce' run' append_raised by (simp add: loop_body_def)
        next
          case (Inr cell')
          then show ?thesis using nofile rd ce' run' written by (simp add: loop_body_def)
        qed
      qed
    qed
  qed
qed

lemma loop_body_keeps_files:
  assumes "files w q = Some d"
  shows "files (world_of (loop_body env ia p w)) q = Some d"
proof (cases rule: loop_body_cases [of w p env ia])
  case skipped
  then show ?thesis using assms by (simp add: world_of_def)
next
  case (unreadable e)
  then show ?thesis using assms by (simp add: world_of_def)
next
  case (no_estimator cell e h)
  then show ?thesis using assms by (simp add: world_of_def)
next
  case (linalg cell est h w')
  then show ?thesis using assms call_run_online_estimate_world [OF linalg(4)]
    by (simp add: world_of_def)
next
  case (run_raised cell est h e w')
  then show ?thesis using assms call_run_online_estimate_world [OF run_raised(4)]
    by (simp add: world_of_def)
next
  case (append_raised cell est h outp e w')
  then show ?thesis using assms call_run_online_estimate_world [OF append_raised(4)]
    by (simp add: world_of_def)
next
  case (written cell est h outp cell' w')
  have "q \<noteq> out_path p" using assms written(1) by auto
  then show ?thesis using written assms call_run_online_estimate_world [OF written(4)]
    by (simp add: world_of_def)
qed

lemma batch_loop_keeps_files:
  assumes "files w q = Some d"
  shows "files (snd (batch_loop env ia ps w)) q = Some d"
  using assms
proof (induction ps arbitrary: w)
  case Nil
  then show ?case by simp
next
  case (Cons p ps)
  have keep: "files (world_of (loop_body env ia p w)) q = Some d"
    using Cons.prems by (rule loop_body_keeps_files)
  show ?case
  proof (cases "loop_body env ia p w")
    case (Next w')
    then show ?thesis using keep Cons.IH [of w'] by (simp add: world_of_def)
  next
    case (Raised e w')
    then show ?thesis using keep by (simp add: world_of_def)
  qed
qed

lemma loop_body_absent_files:
  assumes "files (world_of (loop_body env ia p w)) q = None"
  shows "files w q = None"
  using assms loop_body_keeps_files [of w q _ env ia p]
  by (cases "files w q") auto

lemma batch_loop_absent_files:
  assumes "files (snd (batch_loop env ia ps w)) q = None"
  shows "files w q = None"
  using assms batch_loop_keeps_files [of w q _ env ia ps]
  by (cases "files w q") auto

text \<open>The calls of the estimator one iteration makes: none, or one for a path whose output file does not exist.\<close>

lemma loop_body_runs:
  "runs (world_of (loop_body env ia p w)) = runs w
   \<or> (files w (out_path p) = None
      \<and> (\<exists>est a t. runs (world_of (loop_body env ia p w)) = runs w @ [(p, est, a, t)]))"
proof (cases rule: loop_body_cases [of w p env ia])
  case skipped
  then show ?thesis by (simp add: world_of_def)
next
  case (unreadable e)
  then show ?thesis by (simp add: world_of_def)
next
  case (no_estimator cell e h)
  then show ?thesis by (simp add: world_of_def)
next
  case (linalg cell est h w')
  then show ?thesis using call_run_online_estimate_world [OF linalg(4)]
    by (simp add: world_of_def)
next
  case (run_raised cell est h e w')
  then show ?thesis using call_run_online_estimate_world [OF run_raised(4)]
    by (simp add: world_of_def)
next
  case (append_raised cell est h outp e w')
  then show ?thesis using call_run_online_estimate_world [OF append_raised(4)]
    by (simp add: world_of_def)
next
  case (written cell est h outp cell' w')
  then show ?thesis using call_run_online_estimate_world [OF written(4)]
    by (simp add: world_of_def)
qed

lemma batch_loop_runs:
  "\<exists>new. runs (snd (batch_loop env ia ps w)) = runs w @ new
      \<and> (\<forall>r \<in> set new. fst r \<in> set ps \<and> files w (out_path (fst r)) = None)"
proof (induction ps arbitrary: w)
  case Nil
  then show ?case by simp
next
  case (Cons p ps)
  let ?w1 = "world_of (loop_body env ia p w)"
  obtain new1 where n1: "runs ?w1 = runs w @ new1"
      "\<forall>r \<in> set new1. fst r = p \<and> files w (out_path (fst r)) = None"
    using loop_body_runs [of env ia p w] by auto
  show ?case
  proof (cases "loop_body env ia p w")
    case (Raised e w')
    then show ?thesis using n1 by (auto simp: world_of_def)
  next
    case (Next w')
    then have step: "batch_loop env ia (p # ps) w = batch_loop env ia ps w'" by simp
    have r1: "runs w' = runs w @ new1" using n1(1) Next by (simp add: world_of_def)
    have absent: "\<And>q. files w' q = None \<Longrightarrow> files w q = None"
      using loop_body_absent_files [of env ia p w] Next by (simp add: world_of_def)
    obtain new2 where n2: "runs (snd (batch_loop env ia ps w')) = runs w' @ new2"
      "\<forall>r \<in> set new2. fst r \<in> set ps \<and> files w' (out_path (fst r)) = None"
      using Cons.IH [of w'] by auto
    have "\<forall>r \<in> set new2. files w (out_path (fst r)) = None"
      using n2(2) absent by auto
    then have "\<forall>r \<in> set (new1 @ new2). fst r \<in> set (p # ps) \<and> files w (out_path (fst r)) = None"
      using n1(2) n2(2) by auto
    moreover have "runs (snd (batch_loop env ia (p # ps) w)) = runs w @ (new1 @ new2)"
      unfolding step using r1 n2(1) by simp
    ultimately show ?thesis by blast
  qed
qed

lemma create_estimator_not_LinAlgError:
  "create_estimator env ia d h = (Inl e, h') \<Longrightarrow> e \<noteq> LinAlgError"
  by (auto simp: create_estimator_def Let_def new_transient_def model_copy_deep_def np_item_def
        raw_data_iloc0_def df_getitem_def iloc0_def
        split: if_splits sum.splits list.splits option.splits)

lemma append_estimates_not_LinAlgError:
  "append_estimates cell outp = Inl e \<Longrightarrow> e \<noteq> LinAlgError"
  by (auto simp: append_estimates_def df_join_def df_getitem_def df_groupby_mean_reset_index_def
        df_drop_def Let_def
        split: if_splits sum.splits option.splits)

lemma loop_body_not_LinAlgError:
  assumes "loop_body env ia p w = Raised e w'"
  shows "e \<noteq> LinAlgError"
proof (cases rule: loop_body_cases [of w p env ia])
  case (unreadable e')
  then show ?thesis using assms by (auto simp: from_batdata_hdf_def split: option.splits)
next
  case (no_estimator cell e' h)
  then show ?thesis using assms create_estimator_not_LinAlgError by auto
next
  case (append_raised cell est h outp e' w'')
  then show ?thesis using assms append_estimates_not_LinAlgError by auto
qed (use assms in auto)

lemma batch_loop_not_LinAlgError:
  "fst (batch_loop env ia ps w) \<noteq> Some LinAlgError"
proof (induction ps arbitrary: w)
  case Nil
  show ?case by simp
next
  case (Cons p ps)
  show ?case
  proof (cases "loop_body env ia p w")
    case (Next w')
    then show ?thesis using Cons.IH [of w'] by simp
  next
    case (Raised e w')
    then show ?thesis using loop_body_not_LinAlgError [OF Raised] by simp
  qed
qed

lemma loop_body_LinAlgError:
  assumes "files w (out_path p) = None"
      and "from_batdata_hdf w p = Inr cell"
      and "create_estimator env ia cell (heap w) = (Inr est, h)"
      and "fst (call_run_online_estimate env p cell est (w\<lparr>heap := h\<rparr>)) = Inl LinAlgError"
  shows "\<exists>w'. loop_body env ia p w = Next w'
           \<and> stdout w' = stdout w @ [failure_message p]
           \<and> files w' = files w
           \<and> batch_loop env ia (p # ps) w = batch_loop env ia ps w'"
proof -
  obtain w1 where run: "call_run_online_estimate env p cell est (w\<lparr>heap := h\<rparr>) = (Inl LinAlgError, w1)"
    using assms(4) by (cases "call_run_online_estimate env p cell est (w\<lparr>heap := h\<rparr>)") auto
  have body: "loop_body env ia p w = Next (w1\<lparr>stdout := stdout w1 @ [failure_message p]\<rparr>)"
    using assms(1-3) run by (simp add: loop_body_def)
  have "files w1 = files w" "stdout w1 = stdout w"
    using call_run_online_estimate_world [OF run] by simp_all
  then show ?thesis using body by simp
qed

lemma loop_body_Raised_files:
  assumes "loop_body env ia p w = Raised e w'"
  shows "files w' = files w"
proof (cases rule: loop_body_cases [of w p env ia])
  case (run_raised cell est h e' w'')
  then show ?thesis using assms call_run_online_estimate_world [OF run_raised(4)] by auto
next
  case (append_raised cell est h outp e' w'')
  then show ?thesis using assms call_run_online_estimate_world [OF append_raised(4)] by auto
qed (use assms in auto)

lemma loop_body_new_file:
  assumes "files w q = None"
      and "files (world_of (loop_body env ia p w)) q = Some d"
  shows "q = out_path p
    \<and> (\<exists>cell est h outp w'. from_batdata_hdf w p = Inr cell
          \<and> create_estimator env ia cell (heap w) = (Inr est, h)
          \<and> call_run_online_estimate env p cell est (w\<lparr>heap := h\<rparr>) = (Inr outp, w')
          \<and> append_estimates cell outp = Inr d)"
proof (cases rule: loop_body_cases [of w p env ia])
  case skipped
  then show ?thesis using assms by (simp add: world_of_def)
next
  case (unreadable e)
  then show ?thesis using assms by (simp add: world_of_def)
next
  case (no_estimator cell e h)
  then show ?thesis using assms by (simp add: world_of_def)
next
  case (linalg cell est h w')
  then show ?thesis using assms call_run_online_estimate_world [OF linalg(4)]
    by (simp add: world_of_def)
next
  case (run_raised cell est h e w')
  then show ?thesis using assms call_run_online_estimate_world [OF run_raised(4)]
    by (simp add: world_of_def)
next
  case (append_raised cell est h outp e w')
  then show ?thesis using assms call_run_online_estimate_world [OF append_raised(4)]
    by (simp add: world_of_def)
next
  case (written cell est h outp cell' w')
  have fw: "files w' = files w" using call_run_online_estimate_world [OF written(4)] by simp
  have eq: "q = out_path p \<and> d = cell'"
    using assms written(6) fw by (auto simp: world_of_def split: if_splits)
  then show ?thesis using written by auto
qed

text \<open>One iteration and the store: objects are only added, and the object of
  \<^verbatim>\<open>initial_asoh\<close> keeps its value.\<close>

lemma loop_body_store:
  assumes "ia < length (asohs (heap w))"
  shows "asohs (heap (world_of (loop_body env ia p w))) ! ia = asohs (heap w) ! ia
    \<and> length (asohs (heap w)) \<le> length (asohs (heap (world_of (loop_body env ia p w))))
    \<and> length (transients (heap w)) \<le> length (transients (heap (world_of (loop_body env ia p w))))"
proof -
  have created: "asohs (heap w') ! ia = asohs (heap w) ! ia
      \<and> length (asohs (heap w)) \<le> length (asohs (heap w'))
      \<and> length (transients (heap w)) \<le> length (transients (heap w'))"
    if ce: "create_estimator env ia cell (heap w) = (Inr est, h)"
      and run: "call_run_online_estimate env p cell est (w\<lparr>heap := h\<rparr>) = (r, w')"
    for cell est h r w'
  proof -
    from create_estimator_Inr [OF ce] have
      refs: "initial_asoh est = length (asohs (heap w))"
      and h: "asohs h = asohs (heap w) @ [asohs (heap w) ! ia]"
             "transients h = transients (heap w) @ [(from_asoh env (asohs (heap w) ! ia))\<lparr>soc := [[1]]\<rparr>]"
      by simp_all
    from call_run_online_estimate_world [OF run] have
      "\<exists>x. asohs (heap w') = (asohs h)[initial_asoh est := x]"
      "\<exists>y. transients (heap w') = (transients h)[initial_transients est := y]"
      by auto
    then show ?thesis using refs h assms by (auto simp: nth_append)
  qed
  show ?thesis
  proof (cases rule: loop_body_cases [of w p env ia])
    case skipped
    then show ?thesis by (simp add: world_of_def)
  next
    case (unreadable e)
    then show ?thesis by (simp add: world_of_def)
  next
    case (no_estimator cell e h)
    then show ?thesis using create_estimator_store [OF no_estimator(3)] assms
      by (auto simp: world_of_def nth_append)
  next
    case (linalg cell est h w')
    then show ?thesis using created [OF linalg(3,4)] by (simp add: world_of_def)
  next
    case (run_raised cell est h e w')
    then show ?thesis using created [OF run_raised(3,4)] by (simp add: world_of_def)
  next
    case (append_raised cell est h outp e w')
    then show ?thesis using created [OF append_raised(3,4)] by (simp add: world_of_def)
  next
    case (written cell est h outp cell' w')
    then show ?thesis using created [OF written(3,4)] by (simp add: world_of_def)
  qed
qed

lemma batch_loop_store:
  assumes "ia < length (asohs (heap w))"
  shows "asohs (heap (snd (batch_loop env ia ps w))) ! ia = asohs (heap w) ! ia
    \<and> length (asohs (heap w)) \<le> length (asohs (heap (snd (batch_loop env ia ps w))))
    \<and> length (transients (heap w)) \<le> length (transients (heap (snd (batch_loop env ia ps w))))"
  using assms
proof (induction ps arbitrary: w)
  case Nil
  then show ?case by simp
next
  case (Cons p ps)
  note body = loop_body_store [OF Cons.prems, of env p]
  show ?case
  proof (cases "loop_body env ia p w")
    case (Next w')
    then have w': "asohs (heap w') ! ia = asohs (heap w) ! ia"
      "length (asohs (heap w)) \<le> length (asohs (heap w'))"
      "length (transients (heap w)) \<le> length (transients (heap w'))"
      using body by (simp_all add: world_of_def)
    then have "ia < length (asohs (heap w'))" using Cons.prems by simp
    from Cons.IH [OF this] w' Next show ?thesis by simp
  next
    case (Raised e w')
    then show ?thesis using body by (simp add: world_of_def)
  qed
qed

text \<open>The call of the estimator in one iteration, if there is one, works on two objects made
  in that iteration: a copy of \<^verbatim>\<open>initial_asoh\<close> and a transient state with state of charge 1.\<close>

lemma loop_body_call:
  "(runs (world_of (loop_body env ia p w)) = runs w)
   \<or> (\<exists>r. runs (world_of (loop_body env ia p w)) = runs w @ [r]
        \<and> run_path r = p
        \<and> run_asoh r = asohs (heap w) ! ia
        \<and> run_transients r = (from_asoh env (asohs (heap w) ! ia))\<lparr>soc := [[1]]\<rparr>
        \<and> initial_asoh (run_estimator r) = length (asohs (heap w))
        \<and> initial_transients (run_estimator r) = length (transients (heap w))
        \<and> length (asohs (heap (world_of (loop_body env ia p w)))) = Suc (length (asohs (heap w)))
        \<and> length (transients (heap (world_of (loop_body env ia p w)))) = Suc (length (transients (heap w))))"
proof -
  have called: "runs w' = runs w @ [(p, est, asohs (heap w) ! ia, (from_asoh env (asohs (heap w) ! ia))\<lparr>soc := [[1]]\<rparr>)]
      \<and> initial_asoh est = length (asohs (heap w))
      \<and> initial_transients est = length (transients (heap w))
      \<and> length (asohs (heap w')) = Suc (length (asohs (heap w)))
      \<and> length (transients (heap w')) = Suc (length (transients (heap w)))"
    if ce: "create_estimator env ia cell (heap w) = (Inr est, h)"
      and run: "call_run_online_estimate env p cell est (w\<lparr>heap := h\<rparr>) = (r, w')"
    for cell est h r w'
  proof -
    from create_estimator_Inr [OF ce] have
      refs: "initial_asoh est = length (asohs (heap w))"
            "initial_transients est = length (transients (heap w))"
      and h: "asohs h = asohs (heap w) @ [asohs (heap w) ! ia]"
             "transients h = transients (heap w) @ [(from_asoh env (asohs (heap w) ! ia))\<lparr>soc := [[1]]\<rparr>]"
      by simp_all
    from call_run_online_estimate_world [OF run] have
      "\<exists>x. asohs (heap w') = (asohs h)[initial_asoh est := x]"
      "\<exists>y. transients (heap w') = (transients h)[initial_transients est := y]"
      "runs w' = runs w @ [(p, est, asohs h ! initial_asoh est, transients h ! initial_transients est)]"
      by auto
    then show ?thesis using refs h by auto
  qed
  show ?thesis
  proof (cases rule: loop_body_cases [of w p env ia])
    case skipped
    then show ?thesis by (simp add: world_of_def)
  next
    case (unreadable e)
    then show ?thesis by (simp add: world_of_def)
  next
    case (no_estimator cell e h)
    then show ?thesis by (simp add: world_of_def)
  next
    case (linalg cell est h w')
    then show ?thesis using called [OF linalg(3,4)]
      by (simp add: world_of_def run_path_def run_asoh_def run_transients_def run_estimator_def)
  next
    case (run_raised cell est h e w')
    then show ?thesis using called [OF run_raised(3,4)]
      by (simp add: world_of_def run_path_def run_asoh_def run_transients_def run_estimator_def)
  next
    case (append_raised cell est h outp e w')
    then show ?thesis using called [OF append_raised(3,4)]
      by (simp add: world_of_def run_path_def run_asoh_def run_transients_def run_estimator_def)
  next
    case (written cell est h outp cell' w')
    then show ?thesis using called [OF written(3,4)]
      by (simp add: world_of_def run_path_def run_asoh_def run_transients_def run_estimator_def)
  qed
qed

text \<open>Over the whole loop: every call works on objects of its own, made after the loop started.\<close>

lemma batch_loop_calls:
  assumes "ia < length (asohs (heap w))"
  shows "\<exists>new. runs (snd (batch_loop env ia ps w)) = runs w @ new
    \<and> (\<forall>r \<in> set new.
          run_asoh r = asohs (heap w) ! ia
        \<and> run_transients r = (from_asoh env (asohs (heap w) ! ia))\<lparr>soc := [[1]]\<rparr>
        \<and> length (asohs (heap w)) \<le> initial_asoh (run_estimator r)
        \<and> length (transients (heap w)) \<le> initial_transients (run_estimator r))
    \<and> distinct (map (\<lambda>r. initial_asoh (run_estimator r)) new)
    \<and> distinct (map (\<lambda>r. initial_transients (run_estimator r)) new)"
  using assms
proof (induction ps arbitrary: w)
  case Nil
  then show ?case by simp
next
  case (Cons p ps)
  let ?w1 = "world_of (loop_body env ia p w)"
  let ?P = "\<lambda>w new. (\<forall>r \<in> set new.
          run_asoh r = asohs (heap w) ! ia
        \<and> run_transients r = (from_asoh env (asohs (heap w) ! ia))\<lparr>soc := [[1]]\<rparr>
        \<and> length (asohs (heap w)) \<le> initial_asoh (run_estimator r)
        \<and> length (transients (heap w)) \<le> initial_transients (run_estimator r))
    \<and> distinct (map (\<lambda>r. initial_asoh (run_estimator r)) new)
    \<and> distinct (map (\<lambda>r. initial_transients (run_estimator r)) new)"
  note store = loop_body_store [OF Cons.prems, of env p]
  from loop_body_call [of env ia p w]
  obtain new1 where n1: "runs ?w1 = runs w @ new1" "?P w new1"
    "\<forall>r \<in> set new1. initial_asoh (run_estimator r) < length (asohs (heap ?w1))
        \<and> initial_transients (run_estimator r) < length (transients (heap ?w1))"
  proof (elim disjE exE conjE)
    assume "runs ?w1 = runs w"
    then show ?thesis using that [of "[]"] by simp
  next
    fix r
    assume "runs ?w1 = runs w @ [r]" "run_path r = p" "run_asoh r = asohs (heap w) ! ia"
      "run_transients r = (from_asoh env (asohs (heap w) ! ia))\<lparr>soc := [[1]]\<rparr>"
      "initial_asoh (run_estimator r) = length (asohs (heap w))"
      "initial_transients (run_estimator r) = length (transients (heap w))"
      "length (asohs (heap ?w1)) = Suc (length (asohs (heap w)))"
      "length (transients (heap ?w1)) = Suc (length (transients (heap w)))"
    then show ?thesis using that [of "[r]"] by simp
  qed
  show ?case
  proof (cases "loop_body env ia p w")
    case (Raised e w')
    then show ?thesis using n1 by (auto simp: world_of_def)
  next
    case (Next w')
    then have step: "batch_loop env ia (p # ps) w = batch_loop env ia ps w'" by simp
    have w': "?w1 = w'" using Next by (simp add: world_of_def)
    have ia': "ia < length (asohs (heap w'))" using store Cons.prems w' by simp
    from Cons.IH [OF ia'] obtain new2 where
      n2: "runs (snd (batch_loop env ia ps w')) = runs w' @ new2" "?P w' new2"
      by blast
    have same: "asohs (heap w') ! ia = asohs (heap w) ! ia" using store w' by simp
    have le: "length (asohs (heap w)) \<le> length (asohs (heap w'))"
             "length (transients (heap w)) \<le> length (transients (heap w'))"
      using store w' by simp_all
    have d1: "distinct (map (\<lambda>r. initial_asoh (run_estimator r)) (new1 @ new2))"
      using n1(2,3) n2(2) w' by (fastforce simp: distinct_append)
    have d2: "distinct (map (\<lambda>r. initial_transients (run_estimator r)) (new1 @ new2))"
      using n1(2,3) n2(2) w' by (fastforce simp: distinct_append)
    have all: "\<forall>r \<in> set (new1 @ new2).
          run_asoh r = asohs (heap w) ! ia
        \<and> run_transients r = (from_asoh env (asohs (heap w) ! ia))\<lparr>soc := [[1]]\<rparr>
        \<and> length (asohs (heap w)) \<le> initial_asoh (run_estimator r)
        \<and> length (transients (heap w)) \<le> initial_transients (run_estimator r)"
      using n1(2) n2(2) same le by fastforce
    have "runs (snd (batch_loop env ia (p # ps) w)) = runs w @ (new1 @ new2)"
      unfolding step using n1(1) n2(1) w' by simp
    then show ?thesis using all d1 d2 by blast
  qed
qed

text \<open>Unfolding the definitions on concrete inputs.\<close>

lemmas frame_ops =
  df_getitem_def iloc0_def df_rename_def df_join_def df_setitem_def df_drop_def
  df_groupby_mean_reset_index_def group_keys_def group_rows_def mean_def reindex_def
  column_names_def est_name_def raw_data_iloc0_def append_estimates_def

lemmas estimator_ops =
  create_estimator_def new_transient_def model_copy_deep_def np_item_def np_diag_def np_eye_def
  scale_def fix_reference_ocv_def mark_updatable_def Let_def

lemmas loop_ops =
  loop_body_def call_run_online_estimate_def from_batdata_hdf_def out_path_def path_name_def
  failure_message_def run_path_def run_estimator_def run_asoh_def run_transients_def

lemmas inputs =
  asoh0_def tran0_def heap0_def data1_def data2_def data3_def env_ok_def env_fail_def
  world0_def world1_def output1_def
  moved_asoh_def moved_transient_def

subsection \<open>The estimator depends on the first sample only\<close>

text \<open>
  Claim C9. \<^verbatim>\<open>create_estimator\<close> uses its dataset argument only through
  \<^verbatim>\<open>raw_data['test_time'].iloc[0]\<close> and \<^verbatim>\<open>raw_data['current'].iloc[0]\<close>: two datasets on
  which these two reads agree give the same estimator (and the same store), from the
  same \<^verbatim>\<open>initial_asoh\<close>. Everything else in the estimator comes from \<^verbatim>\<open>initial_asoh\<close>
  and constants.
\<close>

theorem create_estimator_first_sample_only:
  assumes "raw_data_iloc0 d1 ''test_time'' = raw_data_iloc0 d2 ''test_time''"
      and "raw_data_iloc0 d1 ''current'' = raw_data_iloc0 d2 ''current''"
  shows "create_estimator env ia d1 h = create_estimator env ia d2 h"
  by (simp only: create_estimator_def assms)

theorem create_estimator_first_sample_only_witness:
  "raw_data_iloc0 data1 ''test_time'' = Inr (Some 0)
   \<and> raw_data_iloc0 data2 ''test_time'' = Inr (Some 0)
   \<and> raw_data_iloc0 data1 ''current'' = Inr (Some 2)
   \<and> raw_data_iloc0 data2 ''current'' = Inr (Some 2)
   \<and> raw_data data1 \<noteq> raw_data data2
   \<and> create_estimator env_ok 0 data1 heap0 = create_estimator env_ok 0 data2 heap0"
proof -
  have t: "raw_data_iloc0 data1 ''test_time'' = Inr (Some 0)"
          "raw_data_iloc0 data2 ''test_time'' = Inr (Some 0)"
    by (simp_all add: raw_data_iloc0_def df_getitem_def iloc0_def data1_def data2_def)
  have c: "raw_data_iloc0 data1 ''current'' = Inr (Some 2)"
          "raw_data_iloc0 data2 ''current'' = Inr (Some 2)"
    by (simp_all add: raw_data_iloc0_def df_getitem_def iloc0_def data1_def data2_def)
  have ne: "raw_data data1 \<noteq> raw_data data2"
    by (simp add: data1_def data2_def)
  from create_estimator_first_sample_only [of data1 data2 env_ok 0 heap0] t c ne
  show ?thesis by simp
qed

subsection \<open>The filter works on a copy of the initial parameters\<close>

text \<open>
  Claim C2. \<^verbatim>\<open>create_estimator\<close> hands the factory
  \<^verbatim>\<open>initial_asoh.model_copy(deep=True)\<close>: a new object (a reference different from
  \<^verbatim>\<open>initial_asoh\<close>) whose value is that of \<^verbatim>\<open>initial_asoh\<close>. The run of the estimator
  writes to the filter's working objects only, so after the run, however it ends, and
  after the whole batch loop, the object of \<^verbatim>\<open>initial_asoh\<close> has the value it had
  before. In the witness the run does change the working copy.
\<close>

theorem create_estimator_works_on_a_copy:
  assumes "create_estimator env ia cell (heap w) = (Inr est, h)"
      and "call_run_online_estimate env p cell est (w\<lparr>heap := h\<rparr>) = (r, w')"
  shows "initial_asoh est \<noteq> ia
     \<and> asohs h ! initial_asoh est = asohs (heap w) ! ia
     \<and> asohs h ! ia = asohs (heap w) ! ia
     \<and> asohs (heap w') ! ia = asohs (heap w) ! ia
     \<and> asohs (heap (snd (batch_loop env ia ps w))) ! ia = asohs (heap w) ! ia"
proof -
  from create_estimator_Inr [OF assms(1)] have
    ia: "ia < length (asohs (heap w))"
    and ref: "initial_asoh est = length (asohs (heap w))"
    and h: "asohs h = asohs (heap w) @ [asohs (heap w) ! ia]"
    by simp_all
  from call_run_online_estimate_world [OF assms(2)] obtain x where
    w': "asohs (heap w') = (asohs h)[initial_asoh est := x]"
    by auto
  have "initial_asoh est \<noteq> ia" using ia ref by simp
  moreover have "asohs h ! initial_asoh est = asohs (heap w) ! ia" using ref h by simp
  moreover have "asohs h ! ia = asohs (heap w) ! ia" using ia h by (simp add: nth_append)
  moreover have "asohs (heap w') ! ia = asohs (heap w) ! ia"
    using ia ref h w' by (simp add: nth_append)
  moreover have "asohs (heap (snd (batch_loop env ia ps w))) ! ia = asohs (heap w) ! ia"
    using batch_loop_store [OF ia] by simp
  ultimately show ?thesis by simp
qed

theorem create_estimator_works_on_a_copy_witness:
  "\<exists>est h r w'.
      create_estimator env_ok 0 data1 (heap world0) = (Inr est, h)
    \<and> call_run_online_estimate env_ok ''synth-data/a.hdf5'' data1 est (world0\<lparr>heap := h\<rparr>) = (r, w')
    \<and> initial_asoh est \<noteq> 0
    \<and> asohs h ! initial_asoh est = asohs (heap world0) ! 0
    \<and> asohs (heap w') ! initial_asoh est = moved_asoh (asohs (heap world0) ! 0)
    \<and> moved_asoh (asohs (heap world0) ! 0) \<noteq> asohs (heap world0) ! 0
    \<and> asohs (heap w') ! 0 = asohs (heap world0) ! 0
    \<and> asohs (heap (snd (batch_loop env_ok 0 [''synth-data/a.hdf5'', ''synth-data/b.hdf5''] world0))) ! 0
        = asohs (heap world0) ! 0"
proof -
  obtain est h where ce: "create_estimator env_ok 0 data1 (heap world0) = (Inr est, h)"
    by (simp add: estimator_ops frame_ops inputs)
  obtain r w' where run:
    "call_run_online_estimate env_ok ''synth-data/a.hdf5'' data1 est (world0\<lparr>heap := h\<rparr>) = (r, w')"
    by fastforce
  note inst = create_estimator_works_on_a_copy
    [OF ce run, of "[''synth-data/a.hdf5'', ''synth-data/b.hdf5'']"]
  have moved: "asohs (heap w') ! initial_asoh est = moved_asoh (asohs (heap world0) ! 0)"
    using create_estimator_Inr [OF ce] call_run_online_estimate_world [OF run]
    by (simp add: env_ok_def)
  have diff: "moved_asoh (asohs (heap world0) ! 0) \<noteq> asohs (heap world0) ! 0"
    by (simp add: inputs estimator_ops)
  show ?thesis using ce run inst moved diff by blast
qed

subsection \<open>A fresh transient state, fully charged, for every cell\<close>

text \<open>
  Claim C7. \<^verbatim>\<open>create_estimator\<close> makes a new transient state and sets its state of
  charge to \<^verbatim>\<open>np.atleast_2d(1.)\<close>, that is \<open>[[1]]\<close>. In the batch loop every call of
  \<^verbatim>\<open>run_online_estimate\<close> starts from a transient state with state of charge \<open>[[1]]\<close>,
  and no two calls share their transient state or their parameter object: each was made
  by the \<^verbatim>\<open>create_estimator\<close> call of its own iteration. The hypothesis says that
  \<^verbatim>\<open>initial_asoh\<close> is defined.
\<close>

theorem transient_state_initialised_per_cell:
  assumes "ia < length (asohs (heap w))"
  shows "(create_estimator env ia cell (heap w) = (Inr est, h) \<longrightarrow>
            initial_transients est = length (transients (heap w))
          \<and> transients h ! initial_transients est = (from_asoh env (asohs (heap w) ! ia))\<lparr>soc := [[1]]\<rparr>
          \<and> soc (transients h ! initial_transients est) = [[1]])
     \<and> (\<exists>new. runs (snd (batch_loop env ia ps w)) = runs w @ new
          \<and> (\<forall>r \<in> set new.
                soc (run_transients r) = [[1]]
              \<and> length (transients (heap w)) \<le> initial_transients (run_estimator r)
              \<and> length (asohs (heap w)) \<le> initial_asoh (run_estimator r))
          \<and> distinct (map (\<lambda>r. initial_transients (run_estimator r)) new)
          \<and> distinct (map (\<lambda>r. initial_asoh (run_estimator r)) new))"
proof -
  have one: "create_estimator env ia cell (heap w) = (Inr est, h) \<longrightarrow>
            initial_transients est = length (transients (heap w))
          \<and> transients h ! initial_transients est = (from_asoh env (asohs (heap w) ! ia))\<lparr>soc := [[1]]\<rparr>
          \<and> soc (transients h ! initial_transients est) = [[1]]"
  proof
    assume ce: "create_estimator env ia cell (heap w) = (Inr est, h)"
    from create_estimator_Inr [OF ce] show "initial_transients est = length (transients (heap w))
          \<and> transients h ! initial_transients est = (from_asoh env (asohs (heap w) ! ia))\<lparr>soc := [[1]]\<rparr>
          \<and> soc (transients h ! initial_transients est) = [[1]]"
      by simp
  qed
  from batch_loop_calls [OF assms, of env ps] obtain new where
    new: "runs (snd (batch_loop env ia ps w)) = runs w @ new"
      "\<forall>r \<in> set new.
          run_asoh r = asohs (heap w) ! ia
        \<and> run_transients r = (from_asoh env (asohs (heap w) ! ia))\<lparr>soc := [[1]]\<rparr>
        \<and> length (asohs (heap w)) \<le> initial_asoh (run_estimator r)
        \<and> length (transients (heap w)) \<le> initial_transients (run_estimator r)"
      "distinct (map (\<lambda>r. initial_asoh (run_estimator r)) new)"
      "distinct (map (\<lambda>r. initial_transients (run_estimator r)) new)"
    by blast
  have "\<forall>r \<in> set new.
                soc (run_transients r) = [[1]]
              \<and> length (transients (heap w)) \<le> initial_transients (run_estimator r)
              \<and> length (asohs (heap w)) \<le> initial_asoh (run_estimator r)"
    using new(2) by simp
  then show ?thesis using one new(1,3,4) by blast
qed

theorem transient_state_initialised_per_cell_witness:
  "0 < length (asohs (heap world0))
   \<and> map (\<lambda>r. (run_path r, soc (run_transients r),
                initial_transients (run_estimator r), initial_asoh (run_estimator r)))
         (runs (snd (batch_loop env_ok 0 [''synth-data/a.hdf5'', ''synth-data/b.hdf5''] world0)))
       = [(''synth-data/a.hdf5'', [[1]], 0, 1), (''synth-data/b.hdf5'', [[1]], 1, 2)]
   \<and> (\<exists>new. runs (snd (batch_loop env_ok 0 [''synth-data/a.hdf5'', ''synth-data/b.hdf5''] world0))
               = runs world0 @ new
          \<and> (\<forall>r \<in> set new. soc (run_transients r) = [[1]])
          \<and> distinct (map (\<lambda>r. initial_transients (run_estimator r)) new))"
proof -
  have defined: "0 < length (asohs (heap world0))"
    by (simp add: inputs)
  have calls: "map (\<lambda>r. (run_path r, soc (run_transients r),
                initial_transients (run_estimator r), initial_asoh (run_estimator r)))
         (runs (snd (batch_loop env_ok 0 [''synth-data/a.hdf5'', ''synth-data/b.hdf5''] world0)))
       = [(''synth-data/a.hdf5'', [[1]], 0, 1), (''synth-data/b.hdf5'', [[1]], 1, 2)]"
    by (simp add: loop_ops estimator_ops frame_ops inputs)
  from transient_state_initialised_per_cell [OF defined, of env_ok _ _ _ "[''synth-data/a.hdf5'', ''synth-data/b.hdf5'']"]
  have "\<exists>new. runs (snd (batch_loop env_ok 0 [''synth-data/a.hdf5'', ''synth-data/b.hdf5''] world0))
               = runs world0 @ new
          \<and> (\<forall>r \<in> set new. soc (run_transients r) = [[1]])
          \<and> distinct (map (\<lambda>r. initial_transients (run_estimator r)) new)"
    by blast
  then show ?thesis using defined calls by blast
qed

subsection \<open>Existing output files are left alone\<close>

text \<open>
  Claim C10. When the output file of a cell exists, the iteration for that cell does
  nothing: the world after it is the world before it. A pass of the loop never changes
  a file that exists when the pass starts, and every call of \<^verbatim>\<open>run_online_estimate\<close> it
  makes is for a cell whose output file did not exist when the pass started. So a
  second pass after a first one leaves every file of the first pass as it is.
\<close>

theorem batch_loop_leaves_existing_outputs:
  "(files w (out_path p) \<noteq> None \<longrightarrow> loop_body env ia p w = Next w)
   \<and> (files w q = Some d \<longrightarrow> files (snd (batch_loop env ia all_cells w)) q = Some d)
   \<and> (\<exists>new. runs (snd (batch_loop env ia all_cells w)) = runs w @ new
          \<and> (\<forall>r \<in> set new. files w (out_path (run_path r)) = None))
   \<and> (files (snd (batch_loop env ia all_cells w)) q = Some d \<longrightarrow>
        files (snd (batch_loop env ia all_cells (snd (batch_loop env ia all_cells w)))) q = Some d)"
proof -
  have skip: "files w (out_path p) \<noteq> None \<longrightarrow> loop_body env ia p w = Next w"
    by (simp add: loop_body_def)
  have keep: "files w q = Some d \<longrightarrow> files (snd (batch_loop env ia all_cells w)) q = Some d"
    using batch_loop_keeps_files [of w q d env ia all_cells] by blast
  have calls: "\<exists>new. runs (snd (batch_loop env ia all_cells w)) = runs w @ new
          \<and> (\<forall>r \<in> set new. files w (out_path (run_path r)) = None)"
    using batch_loop_runs [of env ia all_cells w] unfolding run_path_def by blast
  have again: "files (snd (batch_loop env ia all_cells w)) q = Some d \<longrightarrow>
        files (snd (batch_loop env ia all_cells (snd (batch_loop env ia all_cells w)))) q = Some d"
    using batch_loop_keeps_files [of "snd (batch_loop env ia all_cells w)" q d env ia all_cells]
    by blast
  show ?thesis using skip keep calls again by blast
qed

theorem batch_loop_leaves_existing_outputs_witness:
  "files world1 (out_path ''synth-data/a.hdf5'') = Some data2
   \<and> loop_body env_ok 0 ''synth-data/a.hdf5'' world1 = Next world1
   \<and> files (snd (batch_loop env_ok 0 [''synth-data/a.hdf5'', ''synth-data/b.hdf5''] world1))
        (out_path ''synth-data/a.hdf5'') = Some data2
   \<and> map run_path (runs (snd (batch_loop env_ok 0 [''synth-data/a.hdf5'', ''synth-data/b.hdf5''] world1)))
        = [''synth-data/b.hdf5'']
   \<and> (\<exists>d. files (snd (batch_loop env_ok 0 [''synth-data/a.hdf5'', ''synth-data/b.hdf5''] world1))
              (out_path ''synth-data/b.hdf5'') = Some d
          \<and> files (snd (batch_loop env_ok 0 [''synth-data/a.hdf5'', ''synth-data/b.hdf5'']
                (snd (batch_loop env_ok 0 [''synth-data/a.hdf5'', ''synth-data/b.hdf5''] world1))))
              (out_path ''synth-data/b.hdf5'') = Some d)"
proof -
  let ?cells = "[''synth-data/a.hdf5'', ''synth-data/b.hdf5'']"
  have exists: "files world1 (out_path ''synth-data/a.hdf5'') = Some data2"
    by (simp add: loop_ops inputs)
  note inst_a = batch_loop_leaves_existing_outputs
    [of world1 "''synth-data/a.hdf5''" env_ok 0 "out_path ''synth-data/a.hdf5''" data2 ?cells]
  have calls: "map run_path (runs (snd (batch_loop env_ok 0 ?cells world1))) = [''synth-data/b.hdf5'']"
    by (simp add: loop_ops estimator_ops frame_ops inputs)
  obtain d where d: "files (snd (batch_loop env_ok 0 ?cells world1)) (out_path ''synth-data/b.hdf5'') = Some d"
    by (simp add: loop_ops estimator_ops frame_ops inputs)
  note inst_b = batch_loop_leaves_existing_outputs
    [of world1 "''synth-data/b.hdf5''" env_ok 0 "out_path ''synth-data/b.hdf5''" d ?cells]
  show ?thesis using exists inst_a calls d inst_b by blast
qed

subsection \<open>A linear-algebra error during a run\<close>

text \<open>
  Claim C1 says that on a numerical failure at a step the failed step is recorded as
  unestimated, that the error does not end the run unless a fatal-abort policy is
  selected, and that the run reports the numbers of successful and failed steps when it
  completes.

  The notebook has one handler, around the whole call of \<^verbatim>\<open>run_online_estimate\<close>. In the
  run below that call raises \<^verbatim>\<open>LinAlgError\<close> for the only cell, after the filter has moved
  its working objects. The loop completes, no file of the cell exists afterwards and no
  file has changed, so no step of the cell is recorded, estimated or not; all that is
  printed is the fixed line naming the path, which holds no count.
\<close>

theorem failed_run_leaves_no_record:
  "fst (batch_loop env_fail 0 [''synth-data/a.hdf5''] world0) = None
   \<and> files (snd (batch_loop env_fail 0 [''synth-data/a.hdf5''] world0)) ''estimates/a.hdf5'' = None
   \<and> files (snd (batch_loop env_fail 0 [''synth-data/a.hdf5''] world0)) = files world0
   \<and> stdout (snd (batch_loop env_fail 0 [''synth-data/a.hdf5''] world0))
        = [''Cell synth-data/a.hdf5 failed due to linear algebra error'']"
  by (simp add: loop_ops estimator_ops frame_ops inputs)

text \<open>
  Claim C1 as amended: the batch loop never ends with the \<^verbatim>\<open>LinAlgError\<close> of a run.
  When \<^verbatim>\<open>run_online_estimate\<close> raises it for a cell, the iteration prints the line
  \<^verbatim>\<open>Cell <path> failed due to linear algebra error\<close>, changes no file (the whole run of
  that cell is dropped), and the loop goes on with the next cell.
\<close>

theorem linalg_error_drops_the_cell:
  "fst (batch_loop env ia ps w) \<noteq> Some LinAlgError
   \<and> (files w (out_path p) = None
       \<and> from_batdata_hdf w p = Inr cell
       \<and> create_estimator env ia cell (heap w) = (Inr est, h)
       \<and> fst (call_run_online_estimate env p cell est (w\<lparr>heap := h\<rparr>)) = Inl LinAlgError
      \<longrightarrow> (\<exists>w'. loop_body env ia p w = Next w'
             \<and> stdout w' = stdout w @ [failure_message p]
             \<and> files w' = files w
             \<and> batch_loop env ia (p # ps) w = batch_loop env ia ps w'))"
  using batch_loop_not_LinAlgError [of env ia ps w]
    loop_body_LinAlgError [of w p cell env ia est h ps]
  by blast

theorem linalg_error_drops_the_cell_witness:
  "files world0 (out_path ''synth-data/a.hdf5'') = None
   \<and> from_batdata_hdf world0 ''synth-data/a.hdf5'' = Inr data1
   \<and> (\<exists>est h. create_estimator env_fail 0 data1 (heap world0) = (Inr est, h)
         \<and> fst (call_run_online_estimate env_fail ''synth-data/a.hdf5'' data1 est (world0\<lparr>heap := h\<rparr>))
             = Inl LinAlgError)
   \<and> (\<exists>w'. loop_body env_fail 0 ''synth-data/a.hdf5'' world0 = Next w'
         \<and> stdout w' = stdout world0 @ [failure_message ''synth-data/a.hdf5'']
         \<and> files w' = files world0
         \<and> batch_loop env_fail 0 [''synth-data/a.hdf5'', ''synth-data/b.hdf5''] world0
             = batch_loop env_fail 0 [''synth-data/b.hdf5''] w')"
proof -
  have absent: "files world0 (out_path ''synth-data/a.hdf5'') = None"
    by (simp add: loop_ops inputs)
  have rd: "from_batdata_hdf world0 ''synth-data/a.hdf5'' = Inr data1"
    by (simp add: loop_ops inputs)
  obtain est h where ce: "create_estimator env_fail 0 data1 (heap world0) = (Inr est, h)"
    by (simp add: estimator_ops frame_ops inputs)
  have run: "fst (call_run_online_estimate env_fail ''synth-data/a.hdf5'' data1 est (world0\<lparr>heap := h\<rparr>))
      = Inl LinAlgError"
    by (simp add: call_run_online_estimate_def env_fail_def Let_def)
  from linalg_error_drops_the_cell
    [of env_fail 0 "[''synth-data/b.hdf5'']" world0 "''synth-data/a.hdf5''" data1 est h]
    absent rd ce run
  show ?thesis by blast
qed

subsection \<open>The output file is written last\<close>

text \<open>
  Claim C8. When \<^verbatim>\<open>run_online_estimate\<close> raises \<^verbatim>\<open>LinAlgError\<close> for a cell whose output
  file does not exist, the iteration changes no file and the loop goes on with the next
  cell. A file that exists after an iteration and did not before is the output file of
  that cell and holds the dataset after estimation, the join onto \<^verbatim>\<open>raw_data\<close> and the
  per-cycle aggregation have all returned. An iteration that ends in an exception
  changes no file.
\<close>

theorem output_file_written_last:
  "(files w (out_path p) = None
       \<and> from_batdata_hdf w p = Inr cell
       \<and> create_estimator env ia cell (heap w) = (Inr est, h)
       \<and> fst (call_run_online_estimate env p cell est (w\<lparr>heap := h\<rparr>)) = Inl LinAlgError
      \<longrightarrow> (\<exists>w'. loop_body env ia p w = Next w'
             \<and> files w' = files w
             \<and> batch_loop env ia (p # ps) w = batch_loop env ia ps w'))
   \<and> (files w q = None \<and> files (world_of (loop_body env ia p w)) q = Some d
      \<longrightarrow> q = out_path p
        \<and> (\<exists>c e g outp v. from_batdata_hdf w p = Inr c
              \<and> create_estimator env ia c (heap w) = (Inr e, g)
              \<and> call_run_online_estimate env p c e (w\<lparr>heap := g\<rparr>) = (Inr outp, v)
              \<and> append_estimates c outp = Inr d))
   \<and> (loop_body env ia p w = Raised err w1 \<longrightarrow> files w1 = files w)"
  using loop_body_LinAlgError [of w p cell env ia est h ps]
    loop_body_new_file [of w q env ia p d]
    loop_body_Raised_files [of env ia p w err w1]
  by blast

theorem output_file_written_last_witness:
  "files world0 (out_path ''synth-data/a.hdf5'') = None
   \<and> from_batdata_hdf world0 ''synth-data/a.hdf5'' = Inr data1
   \<and> (\<exists>est h. create_estimator env_fail 0 data1 (heap world0) = (Inr est, h)
         \<and> fst (call_run_online_estimate env_fail ''synth-data/a.hdf5'' data1 est (world0\<lparr>heap := h\<rparr>))
             = Inl LinAlgError)
   \<and> (\<exists>w'. loop_body env_fail 0 ''synth-data/a.hdf5'' world0 = Next w'
         \<and> files w' = files world0
         \<and> batch_loop env_fail 0 [''synth-data/a.hdf5'', ''synth-data/b.hdf5''] world0
             = batch_loop env_fail 0 [''synth-data/b.hdf5''] w')
   \<and> (\<exists>d. files (world_of (loop_body env_ok 0 ''synth-data/a.hdf5'' world0)) ''estimates/a.hdf5'' = Some d
         \<and> (\<exists>c e g outp v. from_batdata_hdf world0 ''synth-data/a.hdf5'' = Inr c
              \<and> create_estimator env_ok 0 c (heap world0) = (Inr e, g)
              \<and> call_run_online_estimate env_ok ''synth-data/a.hdf5'' c e (world0\<lparr>heap := g\<rparr>) = (Inr outp, v)
              \<and> append_estimates c outp = Inr d))
   \<and> (\<exists>w1. loop_body env_ok 0 ''synth-data/c.hdf5'' world0 = Raised KeyError w1
         \<and> runs w1 \<noteq> runs world0 \<and> files w1 = files world0)"
proof -
  have absent: "files world0 (out_path ''synth-data/a.hdf5'') = None"
    by (simp add: loop_ops inputs)
  have absent': "files world0 ''estimates/a.hdf5'' = None"
    by (simp add: loop_ops inputs)
  have rd: "from_batdata_hdf world0 ''synth-data/a.hdf5'' = Inr data1"
    by (simp add: loop_ops inputs)
  obtain est h where ce: "create_estimator env_fail 0 data1 (heap world0) = (Inr est, h)"
    by (simp add: estimator_ops frame_ops inputs)
  have run: "fst (call_run_online_estimate env_fail ''synth-data/a.hdf5'' data1 est (world0\<lparr>heap := h\<rparr>))
      = Inl LinAlgError"
    by (simp add: call_run_online_estimate_def env_fail_def Let_def)
  have failing: "\<exists>w'. loop_body env_fail 0 ''synth-data/a.hdf5'' world0 = Next w'
         \<and> files w' = files world0
         \<and> batch_loop env_fail 0 [''synth-data/a.hdf5'', ''synth-data/b.hdf5''] world0
             = batch_loop env_fail 0 [''synth-data/b.hdf5''] w'"
    using output_file_written_last
      [of world0 "''synth-data/a.hdf5''" data1 env_fail 0 est h "[''synth-data/b.hdf5'']"]
      absent rd ce run
    by blast
  obtain d where d: "files (world_of (loop_body env_ok 0 ''synth-data/a.hdf5'' world0)) ''estimates/a.hdf5'' = Some d"
    by (simp add: world_of_def loop_ops estimator_ops frame_ops inputs)
  have writing: "\<exists>c e g outp v. from_batdata_hdf world0 ''synth-data/a.hdf5'' = Inr c
              \<and> create_estimator env_ok 0 c (heap world0) = (Inr e, g)
              \<and> call_run_online_estimate env_ok ''synth-data/a.hdf5'' c e (world0\<lparr>heap := g\<rparr>) = (Inr outp, v)
              \<and> append_estimates c outp = Inr d"
    using output_file_written_last
      [of world0 "''synth-data/a.hdf5''" data1 env_ok 0 est h "[]" "''estimates/a.hdf5''" d]
      absent' d
    by blast
  have "\<exists>w1. loop_body env_ok 0 ''synth-data/c.hdf5'' world0 = Raised KeyError w1
      \<and> runs w1 \<noteq> runs world0"
    by (simp add: loop_ops estimator_ops frame_ops inputs)
  then obtain w1 where w1: "loop_body env_ok 0 ''synth-data/c.hdf5'' world0 = Raised KeyError w1"
    "runs w1 \<noteq> runs world0"
    by blast
  have raising: "files w1 = files world0"
    using output_file_written_last
      [of world0 "''synth-data/c.hdf5''" data1 env_ok 0 est h "[]" "''estimates/a.hdf5''" d KeyError w1]
      w1(1)
    by blast
  have 1: "\<exists>est h. create_estimator env_fail 0 data1 (heap world0) = (Inr est, h)
         \<and> fst (call_run_online_estimate env_fail ''synth-data/a.hdf5'' data1 est (world0\<lparr>heap := h\<rparr>))
             = Inl LinAlgError"
    using ce run by blast
  have 2: "\<exists>d. files (world_of (loop_body env_ok 0 ''synth-data/a.hdf5'' world0)) ''estimates/a.hdf5'' = Some d
         \<and> (\<exists>c e g outp v. from_batdata_hdf world0 ''synth-data/a.hdf5'' = Inr c
              \<and> create_estimator env_ok 0 c (heap world0) = (Inr e, g)
              \<and> call_run_online_estimate env_ok ''synth-data/a.hdf5'' c e (world0\<lparr>heap := g\<rparr>) = (Inr outp, v)
              \<and> append_estimates c outp = Inr d)"
    using d writing by blast
  have 3: "\<exists>w1. loop_body env_ok 0 ''synth-data/c.hdf5'' world0 = Raised KeyError w1
         \<and> runs w1 \<noteq> runs world0 \<and> files w1 = files world0"
    using w1 raising by blast
  show ?thesis using absent rd 1 failing 2 3 by simp
qed

subsection \<open>Estimates become columns of the measurement record\<close>

text \<open>Columns of a joined frame, and when the tail of the loop body returns.\<close>

lemma est_name_inj: "est_name x = est_name y \<longleftrightarrow> x = y"
  by (simp add: est_name_def)

lemma map_of_left:
  assumes "c \<in> set (map fst xs)"
  shows "map_of (xs @ ys) c = map_of xs c"
proof -
  from assms obtain v where "map_of xs c = Some v"
    by (cases "map_of xs c") (auto simp: map_of_eq_None_iff)
  then show ?thesis by (simp add: map_add_find_right)
qed

lemma map_of_right:
  assumes "c \<notin> set (map fst xs)"
  shows "map_of (xs @ ys) c = map_of ys c"
proof -
  from assms have "map_of xs c = None" by (simp add: map_of_eq_None_iff)
  then show ?thesis by (simp add: map_add_def)
qed

lemma map_of_renamed:
  "map_of (map (\<lambda>(c, vs). (c, f vs)) (map (\<lambda>(c, vs). (est_name c, vs)) ys)) (est_name x)
     = map_option f (map_of ys x)"
  by (induction ys) (auto simp: est_name_inj)

lemma column_names_rename:
  "column_names (df_rename f d) = map f (column_names d)"
  by (simp add: column_names_def df_rename_def case_prod_unfold comp_def)

lemma df_join_Inr:
  assumes "df_join l r = Inr j"
  shows "nrows j = nrows l"
    and "cols j = cols l @ map (\<lambda>(c, vs). (c, reindex (nrows l) vs)) (cols r)"
    and "set (column_names l) \<inter> set (column_names r) = {}"
  using assms by (auto simp: df_join_def list_ex_iff split: if_splits)

lemma df_join_succeeds:
  assumes "set (column_names l) \<inter> set (column_names r) = {}"
  shows "\<exists>j. df_join l r = Inr j"
  using assms by (auto simp: df_join_def list_ex_iff)

lemma reindex_nth:
  "i < n \<Longrightarrow> reindex n vs ! i = (if i < length vs then vs ! i else None)"
  by (auto simp: reindex_def nth_append)

lemma reindex_same_length: "length vs = n \<Longrightarrow> reindex n vs = vs"
  by (simp add: reindex_def)

lemma length_reindex: "length (reindex n vs) = n"
  by (simp add: reindex_def)

lemma map_fst_replace:
  "map fst (map (\<lambda>(c', vs). if c' = c then (c', s) else (c', vs)) xs) = map fst xs"
  by (induction xs) auto

lemma column_names_setitem_list:
  "column_names (df_setitem d c s)
     = (if c \<in> set (column_names d) then column_names d else column_names d @ [c])"
  by (simp add: df_setitem_def column_names_def map_fst_replace del: map_map)

lemma column_names_setitem:
  "set (column_names (df_setitem d c s)) = insert c (set (column_names d))"
  by (auto simp: column_names_setitem_list)

lemma map_fst_keep:
  "map fst (map (\<lambda>(c, vs). (c, g c vs)) xs) = map fst xs"
  by (induction xs) auto

lemma set_map_fst_filter:
  "fst ` set (filter (\<lambda>(c, vs). P c) xs) = {c \<in> fst ` set xs. P c}"
  by (induction xs) auto

lemma groupby_Inr:
  assumes "key \<in> set (column_names d)"
  shows "\<exists>g. df_groupby_mean_reset_index key d = Inr g
     \<and> set (column_names g) = set (column_names d)"
proof -
  from assms obtain keys where k: "map_of (cols d) key = Some keys"
    by (cases "map_of (cols d) key") (auto simp: column_names_def map_of_eq_None_iff)
  let ?gs = "group_keys keys"
  let ?g = "\<lparr>nrows = length ?gs,
             cols = (key, map Some ?gs) #
                    map (\<lambda>(c, vs). (c, map (\<lambda>g. mean (group_rows keys g vs)) ?gs))
                        (filter (\<lambda>(c, vs). c \<noteq> key) (cols d))\<rparr>"
  have res: "df_groupby_mean_reset_index key d = Inr ?g"
    using k by (simp add: df_groupby_mean_reset_index_def Let_def)
  have "column_names ?g = key # map fst (filter (\<lambda>(c, vs). c \<noteq> key) (cols d))"
    unfolding column_names_def by (simp add: map_fst_keep del: map_map)
  then have "set (column_names ?g) = insert key {c \<in> set (map fst (cols d)). c \<noteq> key}"
    by (simp add: set_map_fst_filter del: set_filter)
  then have "set (column_names ?g) = set (column_names d)"
    using assms unfolding column_names_def by auto
  then show ?thesis using res by blast
qed

lemma df_drop_Inr:
  assumes "set cs \<subseteq> set (column_names d)"
  shows "\<exists>g. df_drop cs d = Inr g \<and> set (column_names g) = set (column_names d) - set cs"
proof -
  let ?g = "d\<lparr>cols := filter (\<lambda>(c, vs). c \<notin> set cs) (cols d)\<rparr>"
  have res: "df_drop cs d = Inr ?g"
    using assms by (auto simp: df_drop_def list_all_iff)
  have "set (column_names ?g) = {c \<in> set (map fst (cols d)). c \<notin> set cs}"
    unfolding column_names_def by (simp add: set_map_fst_filter del: set_filter)
  then have "set (column_names ?g) = set (column_names d) - set cs"
    unfolding column_names_def by auto
  then show ?thesis using res by blast
qed

lemma append_estimates_succeeds:
  assumes cn: "''cycle_number'' \<in> set (column_names (raw_data cell))"
      and fresh: "\<forall>x \<in> set (column_names outp).
                    est_name x \<notin> set (column_names (raw_data cell))
                  \<and> est_name x \<notin> set (column_names (cycle_stats cell))"
  shows "\<exists>cell'. append_estimates cell outp = Inr cell'"
proof -
  have "set (column_names (raw_data cell)) \<inter> set (column_names (df_rename est_name outp)) = {}"
    using fresh by (auto simp: column_names_rename)
  from df_join_succeeds [OF this] obtain raw' where
    j1: "df_join (raw_data cell) (df_rename est_name outp) = Inr raw'" by blast
  have "map_of (cols raw') ''cycle_number'' = map_of (cols (raw_data cell)) ''cycle_number''"
    unfolding df_join_Inr(2) [OF j1] using cn unfolding column_names_def by (rule map_of_left)
  moreover have "map_of (cols (raw_data cell)) ''cycle_number'' \<noteq> None"
    using cn by (simp add: map_of_eq_None_iff column_names_def)
  ultimately obtain cyc where g1: "df_getitem raw' ''cycle_number'' = Inr cyc"
    by (auto simp: df_getitem_def split: option.splits)
  let ?out = "df_setitem outp ''cycle_number'' cyc"
  have "''cycle_number'' \<in> set (column_names ?out)"
    by (simp add: column_names_setitem)
  from groupby_Inr [OF this] obtain by_cycle where
    gb: "df_groupby_mean_reset_index ''cycle_number'' ?out = Inr by_cycle"
      "set (column_names by_cycle) = insert ''cycle_number'' (set (column_names outp))"
    by (auto simp: column_names_setitem)
  have "set [''cycle_number''] \<subseteq> set (column_names by_cycle)" using gb(2) by simp
  from df_drop_Inr [OF this] obtain dropped where
    dr: "df_drop [''cycle_number''] by_cycle = Inr dropped"
      "set (column_names dropped) \<subseteq> set (column_names outp)"
    using gb(2) by auto
  have "set (column_names (cycle_stats cell)) \<inter> set (column_names (df_rename est_name dropped)) = {}"
    using fresh dr(2) by (auto simp: column_names_rename)
  from df_join_succeeds [OF this] obtain stats' where
    j2: "df_join (cycle_stats cell) (df_rename est_name dropped) = Inr stats'" by blast
  show ?thesis using j1 g1 gb(1) dr(1) j2 by (simp add: append_estimates_def)
qed

lemma append_estimates_raw_data:
  assumes "append_estimates cell outp = Inr cell'"
  shows "df_join (raw_data cell) (df_rename est_name outp) = Inr (raw_data cell')"
proof (cases "df_join (raw_data cell) (df_rename est_name outp)")
  case (Inl e)
  then show ?thesis using assms by (simp add: append_estimates_def)
next
  case (Inr raw')
  then have "raw_data cell' = raw'"
    using assms by (auto simp: append_estimates_def split: sum.splits)
  then show ?thesis using Inr by simp
qed

lemma raw_data_after_append:
  assumes "append_estimates cell outp = Inr cell'"
  shows "nrows (raw_data cell') = nrows (raw_data cell)"
    and "cols (raw_data cell') = cols (raw_data cell) @
           map (\<lambda>(c, vs). (c, reindex (nrows (raw_data cell)) vs))
               (map (\<lambda>(c, vs). (est_name c, vs)) (cols outp))"
    and "set (column_names (raw_data cell)) \<inter> est_name ` set (column_names outp) = {}"
proof -
  note j = append_estimates_raw_data [OF assms]
  show "nrows (raw_data cell') = nrows (raw_data cell)"
    using df_join_Inr(1) [OF j] .
  show "cols (raw_data cell') = cols (raw_data cell) @
           map (\<lambda>(c, vs). (c, reindex (nrows (raw_data cell)) vs))
               (map (\<lambda>(c, vs). (est_name c, vs)) (cols outp))"
    using df_join_Inr(2) [OF j] by (simp add: df_rename_def)
  show "set (column_names (raw_data cell)) \<inter> est_name ` set (column_names outp) = {}"
    using df_join_Inr(3) [OF j] by (simp add: column_names_rename)
qed

lemma old_column_kept:
  assumes "append_estimates cell outp = Inr cell'"
      and "c \<in> set (column_names (raw_data cell))"
  shows "df_getitem (raw_data cell') c = df_getitem (raw_data cell) c"
proof -
  have "map_of (cols (raw_data cell')) c = map_of (cols (raw_data cell)) c"
    unfolding raw_data_after_append(2) [OF assms(1)]
    using assms(2) unfolding column_names_def by (rule map_of_left)
  then show ?thesis by (simp add: df_getitem_def)
qed

lemma est_column_added:
  assumes "append_estimates cell outp = Inr cell'"
      and "df_getitem outp x = Inr m"
  shows "df_getitem (raw_data cell') (est_name x) = Inr (reindex (nrows (raw_data cell)) m)"
proof -
  from assms(2) have m: "map_of (cols outp) x = Some m"
    by (simp add: df_getitem_def split: option.splits)
  then have "x \<in> set (column_names outp)"
    unfolding column_names_def by (metis map_of_eq_None_iff option.distinct(1) set_map)
  then have "est_name x \<notin> set (map fst (cols (raw_data cell)))"
    using raw_data_after_append(3) [OF assms(1)] unfolding column_names_def by blast
  then have "map_of (cols (raw_data cell')) (est_name x)
      = map_of (map (\<lambda>(c, vs). (c, reindex (nrows (raw_data cell)) vs))
               (map (\<lambda>(c, vs). (est_name c, vs)) (cols outp))) (est_name x)"
    unfolding raw_data_after_append(2) [OF assms(1)] by (rule map_of_right)
  also have "\<dots> = map_option (reindex (nrows (raw_data cell))) (map_of (cols outp) x)"
    by (rule map_of_renamed)
  finally show ?thesis using m by (simp add: df_getitem_def)
qed

text \<open>
  Claim C5. When the tail of the loop body completes for a cell, \<^verbatim>\<open>raw_data\<close> has as
  many rows as before and its columns are the original columns, unchanged, followed by
  one column \<^verbatim>\<open>est_<c>\<close> for every column \<^verbatim>\<open>c\<close> of the estimates, aligned on the index.
  So for a state dimension \<^verbatim>\<open>x\<close> with estimate columns \<^verbatim>\<open>x\<close> and \<^verbatim>\<open>x_std\<close> the record has
  \<^verbatim>\<open>est_x\<close> and \<^verbatim>\<open>est_x_std\<close>. Alignment is row for row: row \<open>i\<close> of an added column is
  row \<open>i\<close> of the estimates, and the whole column when the estimates have one row per
  sample. The tail completes when \<^verbatim>\<open>raw_data\<close> has a column \<^verbatim>\<open>cycle_number\<close> and neither
  frame of the cell has a column named like an added one.
\<close>

theorem estimates_joined_onto_raw_data:
  "(append_estimates cell outp = Inr cell' \<longrightarrow>
        nrows (raw_data cell') = nrows (raw_data cell)
      \<and> cols (raw_data cell') = cols (raw_data cell) @
           map (\<lambda>(x, vs). (''est_'' @ x, reindex (nrows (raw_data cell)) vs)) (cols outp)
      \<and> (\<forall>c \<in> set (column_names (raw_data cell)).
            df_getitem (raw_data cell') c = df_getitem (raw_data cell) c)
      \<and> (\<forall>x m. df_getitem outp x = Inr m \<longrightarrow>
            df_getitem (raw_data cell') (''est_'' @ x) = Inr (reindex (nrows (raw_data cell)) m))
      \<and> (\<forall>x s. df_getitem outp (x @ ''_std'') = Inr s \<longrightarrow>
            df_getitem (raw_data cell') (''est_'' @ x @ ''_std'')
              = Inr (reindex (nrows (raw_data cell)) s)))
   \<and> (\<forall>i < n. reindex n vs ! i = (if i < length vs then vs ! i else None))
   \<and> (length vs = n \<longrightarrow> reindex n vs = vs)
   \<and> (''cycle_number'' \<in> set (column_names (raw_data cell))
       \<and> (\<forall>x \<in> set (column_names outp).
              ''est_'' @ x \<notin> set (column_names (raw_data cell))
            \<and> ''est_'' @ x \<notin> set (column_names (cycle_stats cell)))
      \<longrightarrow> (\<exists>cell'. append_estimates cell outp = Inr cell'))"
proof -
  have shape: "append_estimates cell outp = Inr cell' \<longrightarrow>
        nrows (raw_data cell') = nrows (raw_data cell)
      \<and> cols (raw_data cell') = cols (raw_data cell) @
           map (\<lambda>(x, vs). (''est_'' @ x, reindex (nrows (raw_data cell)) vs)) (cols outp)"
    using raw_data_after_append(1,2) [of cell outp cell']
    by (simp add: est_name_def case_prod_unfold comp_def)
  have old: "append_estimates cell outp = Inr cell' \<longrightarrow>
      (\<forall>c \<in> set (column_names (raw_data cell)).
            df_getitem (raw_data cell') c = df_getitem (raw_data cell) c)"
    using old_column_kept [of cell outp cell'] by blast
  have new: "append_estimates cell outp = Inr cell' \<longrightarrow>
      (\<forall>x m. df_getitem outp x = Inr m \<longrightarrow>
            df_getitem (raw_data cell') (''est_'' @ x) = Inr (reindex (nrows (raw_data cell)) m))"
    using est_column_added [of cell outp cell'] unfolding est_name_def by blast
  have std: "append_estimates cell outp = Inr cell' \<longrightarrow>
      (\<forall>x s. df_getitem outp (x @ ''_std'') = Inr s \<longrightarrow>
            df_getitem (raw_data cell') (''est_'' @ x @ ''_std'')
              = Inr (reindex (nrows (raw_data cell)) s))"
    using est_column_added [of cell outp cell'] unfolding est_name_def by blast
  have rows: "\<forall>i < n. reindex n vs ! i = (if i < length vs then vs ! i else None)"
    using reindex_nth [of _ n vs] by blast
  have same: "length vs = n \<longrightarrow> reindex n vs = vs"
    using reindex_same_length [of vs n] by blast
  have succeeds: "''cycle_number'' \<in> set (column_names (raw_data cell))
       \<and> (\<forall>x \<in> set (column_names outp).
              ''est_'' @ x \<notin> set (column_names (raw_data cell))
            \<and> ''est_'' @ x \<notin> set (column_names (cycle_stats cell)))
      \<longrightarrow> (\<exists>cell'. append_estimates cell outp = Inr cell')"
    using append_estimates_succeeds [of cell outp] unfolding est_name_def by blast
  show ?thesis using shape old new std rows same succeeds by blast
qed

theorem estimates_joined_onto_raw_data_witness:
  "(\<exists>cell'. append_estimates data1 output1 = Inr cell'
      \<and> nrows (raw_data cell') = 2
      \<and> column_names (raw_data cell')
          = [''test_time'', ''current'', ''cycle_number'', ''est_soc'', ''est_soc_std'']
      \<and> df_getitem (raw_data cell') ''current'' = Inr [Some 2, Some 3]
      \<and> df_getitem (raw_data cell') ''est_soc'' = Inr [Some (9 / 10), Some (8 / 10)]
      \<and> df_getitem (raw_data cell') ''est_soc_std'' = Inr [Some (1 / 10), Some (2 / 10)])
   \<and> reindex 2 [Some (9 / 10), Some (8 / 10)] = [Some (9 / 10), Some (8 / 10)]
   \<and> reindex 2 [Some (9 / 10), Some (8 / 10)] ! 1 = Some (8 / 10)"
proof -
  have ok: "''cycle_number'' \<in> set (column_names (raw_data data1))
       \<and> (\<forall>x \<in> set (column_names output1).
              ''est_'' @ x \<notin> set (column_names (raw_data data1))
            \<and> ''est_'' @ x \<notin> set (column_names (cycle_stats data1)))"
    by (simp add: column_names_def inputs)
  note inst = estimates_joined_onto_raw_data
  from inst [of data1 output1 _ 2 "[Some (9 / 10), Some (8 / 10)]"] ok
  obtain cell' where cell': "append_estimates data1 output1 = Inr cell'"
    by blast
  note facts = inst [of data1 output1 cell' 2 "[Some (9 / 10), Some (8 / 10)]"]
  have rows: "nrows (raw_data cell') = 2"
    using facts cell' by (simp add: inputs)
  have names: "column_names (raw_data cell')
          = [''test_time'', ''current'', ''cycle_number'', ''est_soc'', ''est_soc_std'']"
    using facts cell' by (simp add: column_names_def inputs)
  have "''current'' \<in> set (column_names (raw_data data1))"
    by (simp add: column_names_def inputs)
  then have "df_getitem (raw_data cell') ''current'' = df_getitem (raw_data data1) ''current''"
    using facts cell' by blast
  then have cur: "df_getitem (raw_data cell') ''current'' = Inr [Some 2, Some 3]"
    by (simp add: df_getitem_def inputs)
  have "df_getitem output1 ''soc'' = Inr [Some (9 / 10), Some (8 / 10)]"
    by (simp add: df_getitem_def inputs)
  then have "df_getitem (raw_data cell') (''est_'' @ ''soc'')
      = Inr (reindex (nrows (raw_data data1)) [Some (9 / 10), Some (8 / 10)])"
    using facts cell' by blast
  then have soc: "df_getitem (raw_data cell') ''est_soc'' = Inr [Some (9 / 10), Some (8 / 10)]"
    by (simp add: reindex_def inputs)
  have "df_getitem output1 (''soc'' @ ''_std'') = Inr [Some (1 / 10), Some (2 / 10)]"
    by (simp add: df_getitem_def inputs)
  then have "df_getitem (raw_data cell') (''est_'' @ ''soc'' @ ''_std'')
      = Inr (reindex (nrows (raw_data data1)) [Some (1 / 10), Some (2 / 10)])"
    using facts cell' by blast
  then have std: "df_getitem (raw_data cell') ''est_soc_std'' = Inr [Some (1 / 10), Some (2 / 10)]"
    by (simp add: reindex_def inputs)
  have whole: "reindex 2 [Some (9 / 10), Some (8 / 10)] = [Some (9 / 10), Some (8 / 10 :: real)]"
    using facts by simp
  have row: "reindex 2 [Some (9 / 10), Some (8 / 10)] ! 1 = Some (8 / 10 :: real)"
    using facts by simp
  show ?thesis using cell' rows names cur soc std whole row by blast
qed

subsection \<open>The padded reference OCV table\<close>

text \<open>A linear lookup is defined wherever the query lies between the first pinpoint and
  the last.\<close>

lemma interp_linear_defined:
  assumes "length xs = length ys" and "xs \<noteq> []" and "hd xs \<le> s" and "s < last xs"
  shows "\<exists>v. interp_linear xs ys s = Inr v"
  using assms
proof (induction xs ys s rule: interp_linear.induct)
  case (1 x0 x1 xs y0 y1 ys s)
  show ?case
  proof (cases "x0 \<le> s \<and> s \<le> x1 \<and> x0 < x1")
    case True
    then show ?thesis by simp
  next
    case False
    have "x1 \<le> s" using False "1.prems"(3) by auto
    moreover have "s < last (x1 # xs)" using "1.prems"(4) by simp
    moreover have "length (x1 # xs) = length (y1 # ys)" using "1.prems"(1) by simp
    ultimately have "\<exists>v. interp_linear (x1 # xs) (y1 # ys) s = Inr v"
      using "1.IH" [OF False] by simp
    then show ?thesis using False by simp
  qed
qed (auto simp: neq_Nil_conv)

text \<open>
  Claim C3. After the configuration cell the pinpoints of the reference OCV curve are
  the original ones between the sentinels \<open>-0.1\<close> and \<open>1.1\<close>, and the base values are the
  original ones between \<open>0.0\<close> and \<open>6.5\<close>, so both ends of the table lie strictly outside
  \<open>[0, 1]\<close>. For a table that had as many base values as pinpoints, the linear lookup at
  any state of charge in \<open>[0, 1]\<close>, the ends \<open>0\<close> and \<open>1\<close> included, returns a value.
\<close>

theorem padded_ocv_table_covers_unit_interval:
  assumes "length (concat (ocv_ref_base_values a)) = length (ocv_ref_soc_pinpoints a)"
      and "0 \<le> s" and "s \<le> 1"
  shows "ocv_ref_soc_pinpoints (fix_reference_ocv a) = [- (1 / 10)] @ ocv_ref_soc_pinpoints a @ [11 / 10]
     \<and> ocv_ref_base_values (fix_reference_ocv a) = [[0] @ concat (ocv_ref_base_values a) @ [65 / 10]]
     \<and> ocv_ref_interpolation_style (fix_reference_ocv a) = ''linear''
     \<and> hd (ocv_ref_soc_pinpoints (fix_reference_ocv a)) = - (1 / 10)
     \<and> last (ocv_ref_soc_pinpoints (fix_reference_ocv a)) = 11 / 10
     \<and> hd (hd (ocv_ref_base_values (fix_reference_ocv a))) = 0
     \<and> last (hd (ocv_ref_base_values (fix_reference_ocv a))) = 65 / 10
     \<and> hd (ocv_ref_soc_pinpoints (fix_reference_ocv a)) < s
     \<and> s < last (ocv_ref_soc_pinpoints (fix_reference_ocv a))
     \<and> (\<exists>v. ocv_ref (fix_reference_ocv a) s = Inr v)"
proof -
  let ?xs = "[- (1 / 10)] @ ocv_ref_soc_pinpoints a @ [11 / 10]"
  let ?ys = "[0] @ concat (ocv_ref_base_values a) @ [65 / 10]"
  have xs: "ocv_ref_soc_pinpoints (fix_reference_ocv a) = ?xs"
    and ys: "ocv_ref_base_values (fix_reference_ocv a) = [?ys]"
    and style: "ocv_ref_interpolation_style (fix_reference_ocv a) = ''linear''"
    by (simp_all add: fix_reference_ocv_def mark_updatable_def Let_def)
  have len: "length ?xs = length ?ys" using assms(1) by simp
  have hd_last: "hd ?xs = - (1 / 10)" "last ?xs = 11 / 10" "hd ?ys = 0" "last ?ys = 65 / 10"
    by simp_all
  have inside: "hd ?xs < s" "s < last ?xs" using assms(2,3) by simp_all
  have "\<exists>v. interp_linear ?xs ?ys s = Inr v"
    by (rule interp_linear_defined) (use len inside in auto)
  then have "\<exists>v. ocv_ref (fix_reference_ocv a) s = Inr v"
    using len by (simp add: ocv_ref_def xs ys style)
  then show ?thesis using xs ys style hd_last inside by simp
qed

theorem padded_ocv_table_covers_unit_interval_witness:
  "length (concat (ocv_ref_base_values asoh0)) = length (ocv_ref_soc_pinpoints asoh0)
   \<and> ocv_ref_soc_pinpoints (fix_reference_ocv asoh0) = [- (1 / 10), 0, 1, 11 / 10]
   \<and> ocv_ref_base_values (fix_reference_ocv asoh0) = [[0, 3, 4, 65 / 10]]
   \<and> ocv_ref (fix_reference_ocv asoh0) 0 = Inr 3
   \<and> ocv_ref (fix_reference_ocv asoh0) 1 = Inr 4
   \<and> ocv_ref (fix_reference_ocv asoh0) (1 / 2) = Inr (7 / 2)"
proof -
  have wf: "length (concat (ocv_ref_base_values asoh0)) = length (ocv_ref_soc_pinpoints asoh0)"
    by (simp add: asoh0_def)
  note at0 = padded_ocv_table_covers_unit_interval [OF wf, of 0]
  note at1 = padded_ocv_table_covers_unit_interval [OF wf, of 1]
  have xs: "ocv_ref_soc_pinpoints (fix_reference_ocv asoh0) = [- (1 / 10), 0, 1, 11 / 10]"
    using at0 by (simp add: asoh0_def)
  have ys: "ocv_ref_base_values (fix_reference_ocv asoh0) = [[0, 3, 4, 65 / 10]]"
    using at1 by (simp add: asoh0_def)
  have style: "ocv_ref_interpolation_style (fix_reference_ocv asoh0) = ''linear''"
    using at0 by simp
  have "ocv_ref (fix_reference_ocv asoh0) 0 = Inr 3"
       "ocv_ref (fix_reference_ocv asoh0) 1 = Inr 4"
       "ocv_ref (fix_reference_ocv asoh0) (1 / 2) = Inr (7 / 2)"
    by (simp_all add: ocv_ref_def xs ys style)
  then show ?thesis using wf xs ys by simp
qed

subsection \<open>Per-cycle means in the cycle statistics\<close>

text \<open>
  What the tail of the loop body does to \<^verbatim>\<open>cycle_stats\<close> when the cycle numbers present
  in \<^verbatim>\<open>raw_data\<close> are exactly \<open>0, \<dots>, k - 1\<close> (and the estimates have one row per
  sample): row \<open>c\<close> of an added column \<^verbatim>\<open>est_<x>\<close> is the mean of \<^verbatim>\<open>x\<close> over the samples
  of cycle \<open>c\<close>.
\<close>

lemma append_estimates_steps:
  assumes "append_estimates cell outp = Inr cell'"
  obtains cn by_cycle dropped where
    "df_getitem (raw_data cell') ''cycle_number'' = Inr cn"
    "df_groupby_mean_reset_index ''cycle_number'' (df_setitem outp ''cycle_number'' cn) = Inr by_cycle"
    "df_drop [''cycle_number''] by_cycle = Inr dropped"
    "df_join (cycle_stats cell) (df_rename est_name dropped) = Inr (cycle_stats cell')"
proof (cases "df_join (raw_data cell) (df_rename est_name outp)")
  case (Inl e)
  then show ?thesis using assms by (simp add: append_estimates_def)
next
  case (Inr raw')
  then show ?thesis using assms that
    by (auto simp: append_estimates_def split: sum.splits)
qed

lemma map_of_replaced:
  "map_of (map (\<lambda>(c', vs). if c' = c then (c', s) else (c', vs)) xs) x
     = (if x = c then map_option (\<lambda>_. s) (map_of xs c) else map_of xs x)"
  by (induction xs) auto

lemma getitem_setitem_same:
  "df_getitem (df_setitem d c s) c = Inr (reindex (nrows d) s)"
proof (cases "c \<in> set (column_names d)")
  case True
  then obtain v where "map_of (cols d) c = Some v"
    unfolding column_names_def by (cases "map_of (cols d) c") (auto simp: map_of_eq_None_iff)
  then show ?thesis using True
    by (simp add: df_getitem_def df_setitem_def map_of_replaced)
next
  case False
  then have "map_of (cols d @ [(c, reindex (nrows d) s)]) c = map_of [(c, reindex (nrows d) s)] c"
    unfolding column_names_def by (rule map_of_right)
  then show ?thesis using False
    by (simp add: df_getitem_def df_setitem_def)
qed

lemma getitem_setitem_other:
  assumes "x \<noteq> c"
  shows "df_getitem (df_setitem d c s) x = df_getitem d x"
proof (cases "c \<in> set (column_names d)")
  case True
  then show ?thesis using assms by (simp add: df_getitem_def df_setitem_def map_of_replaced)
next
  case False
  have "map_of (cols d @ [(c, reindex (nrows d) s)]) x = map_of (cols d) x"
    using assms by (auto simp: map_add_def split: option.splits)
  then show ?thesis using False by (simp add: df_getitem_def df_setitem_def)
qed

lemma getitem_Inr:
  assumes "df_getitem d c = Inr vs"
  shows "map_of (cols d) c = Some vs" and "c \<in> set (column_names d)"
proof -
  show m: "map_of (cols d) c = Some vs"
    using assms by (simp add: df_getitem_def split: option.splits)
  from map_of_SomeD [OF m] have "fst (c, vs) \<in> fst ` set (cols d)" by (rule imageI)
  then show "c \<in> set (column_names d)" by (simp add: column_names_def)
qed

lemma map_of_filter_names:
  "P x \<Longrightarrow> map_of (filter (\<lambda>(c, vs). P c) xs) x = map_of xs x"
  by (induction xs) auto

lemma map_of_mapped:
  "map_of (map (\<lambda>(c, vs). (c, f vs)) xs) x = map_option f (map_of xs x)"
  by (induction xs) auto

lemma group_keys_range:
  assumes "set (dropna keys) = real ` {0..<k}"
  shows "group_keys keys = map real [0..<k]"
proof -
  have "sorted (map real [0..<k])"
    by (simp add: sorted_map sorted_wrt_iff_nth_less)
  moreover have "distinct (map real [0..<k])"
    by (simp add: distinct_map inj_on_def)
  moreover have "set (map real [0..<k]) = set (sort (remdups (dropna keys)))"
    using assms by simp
  moreover have "sorted (sort (remdups (dropna keys)))" "distinct (sort (remdups (dropna keys)))"
    by simp_all
  ultimately have "sort (remdups (dropna keys)) = map real [0..<k]"
    by (intro sorted_distinct_set_unique) simp_all
  then show ?thesis by (simp add: group_keys_def)
qed

lemma cycle_means_for_contiguous_cycles:
  assumes fin: "append_estimates cell outp = Inr cell'"
      and cyc: "df_getitem (raw_data cell) ''cycle_number'' = Inr cyc"
      and rows: "length cyc = nrows outp"
      and present: "set (dropna cyc) = real ` {0..<k}"
      and stats: "k \<le> nrows (cycle_stats cell)"
      and x: "df_getitem outp x = Inr vs" "x \<noteq> ''cycle_number''"
      and c: "c < k"
  shows "\<exists>col. df_getitem (cycle_stats cell') (est_name x) = Inr col
           \<and> col ! c = mean (group_rows cyc (real c) vs)"
proof -
  let ?key = "''cycle_number''"
  from append_estimates_steps [OF fin] obtain cn by_cycle dropped where
    cn: "df_getitem (raw_data cell') ?key = Inr cn"
    and gb: "df_groupby_mean_reset_index ?key (df_setitem outp ?key cn) = Inr by_cycle"
    and dr: "df_drop [?key] by_cycle = Inr dropped"
    and jn: "df_join (cycle_stats cell) (df_rename est_name dropped) = Inr (cycle_stats cell')"
    by blast
  have "?key \<in> set (column_names (raw_data cell))"
    using getitem_Inr(2) [OF cyc] .
  from old_column_kept [OF fin this] cn cyc have cn_eq: "cn = cyc" by simp
  let ?out = "df_setitem outp ?key cyc"
  let ?gs = "map real [0..<k]"
  let ?F = "\<lambda>vs. map (\<lambda>g. mean (group_rows cyc g vs)) ?gs"
  have "df_getitem ?out ?key = Inr cyc"
    using getitem_setitem_same [of outp ?key cyc] rows by (simp add: reindex_same_length)
  then have keys: "map_of (cols ?out) ?key = Some cyc" by (rule getitem_Inr(1))
  have by_cycle: "cols by_cycle = (?key, map Some ?gs) #
      map (\<lambda>(c, vs). (c, ?F vs)) (filter (\<lambda>(c, vs). c \<noteq> ?key) (cols ?out))"
    using gb keys unfolding cn_eq
    by (auto simp: df_groupby_mean_reset_index_def Let_def group_keys_range [OF present])
  have "cols dropped = filter (\<lambda>(c, vs). c \<noteq> ?key) (cols by_cycle)"
    using dr by (auto simp: df_drop_def split: if_splits)
  then have "map_of (cols dropped) x = map_of (cols by_cycle) x"
    using map_of_filter_names [of "\<lambda>c. c \<noteq> ?key" x "cols by_cycle"] x(2) by simp
  also have "\<dots> = map_of (map (\<lambda>(c, vs). (c, ?F vs)) (filter (\<lambda>(c, vs). c \<noteq> ?key) (cols ?out))) x"
    using x(2) unfolding by_cycle by simp
  also have "\<dots> = map_option ?F (map_of (filter (\<lambda>(c, vs). c \<noteq> ?key) (cols ?out)) x)"
    by (rule map_of_mapped)
  also have "\<dots> = map_option ?F (map_of (cols ?out) x)"
    using map_of_filter_names [of "\<lambda>c. c \<noteq> ?key" x "cols ?out"] x(2) by simp
  finally have "map_of (cols dropped) x = map_option ?F (map_of (cols ?out) x)" .
  moreover have "map_of (cols ?out) x = Some vs"
    using getitem_setitem_other [OF x(2), of outp cyc] x(1) by (simp add: getitem_Inr(1))
  ultimately have dropped_x: "map_of (cols dropped) x = Some (?F vs)" by simp
  let ?n = "nrows (cycle_stats cell)"
  have "df_getitem dropped x = Inr (?F vs)"
    using dropped_x by (simp add: df_getitem_def)
  then have "x \<in> set (column_names dropped)" by (rule getitem_Inr(2))
  then have "est_name x \<in> set (column_names (df_rename est_name dropped))"
    by (simp add: column_names_rename)
  then have fresh: "est_name x \<notin> set (map fst (cols (cycle_stats cell)))"
    using df_join_Inr(3) [OF jn] unfolding column_names_def by blast
  have joined: "cols (cycle_stats cell') = cols (cycle_stats cell) @
      map (\<lambda>(c, vs). (c, reindex ?n vs)) (map (\<lambda>(c, vs). (est_name c, vs)) (cols dropped))"
    using df_join_Inr(2) [OF jn] by (simp add: df_rename_def)
  have "map_of (cols (cycle_stats cell')) (est_name x)
      = map_of (map (\<lambda>(c, vs). (c, reindex ?n vs))
                 (map (\<lambda>(c, vs). (est_name c, vs)) (cols dropped))) (est_name x)"
    unfolding joined using fresh by (rule map_of_right)
  also have "\<dots> = map_option (reindex ?n) (map_of (cols dropped) x)"
    by (rule map_of_renamed)
  finally have col: "df_getitem (cycle_stats cell') (est_name x) = Inr (reindex ?n (?F vs))"
    using dropped_x by (simp add: df_getitem_def)
  have "reindex ?n (?F vs) ! c = ?F vs ! c"
    using c stats by (simp add: reindex_nth)
  also have "\<dots> = mean (group_rows cyc (real c) vs)"
    using c by simp
  finally show ?thesis using col by blast
qed

text \<open>
  Claim C6 says that for every cycle number present in the data the value written into
  \<^verbatim>\<open>cycle_stats\<close> is the mean of the per-sample estimates over the samples of that cycle.

  The code computes these means (\<^verbatim>\<open>groupby('cycle_number').mean()\<close>), but
  \<^verbatim>\<open>reset_index()\<close> and \<^verbatim>\<open>drop(columns=['cycle_number'])\<close> then discard the cycle numbers,
  and the join onto \<^verbatim>\<open>cycle_stats\<close> is by row position. For the cell below the samples
  belong to cycles 0 and 2: the mean over cycle 2 is 60, but the row of cycle 2 in
  \<^verbatim>\<open>cycle_stats\<close> gets NaN, and the row of cycle 1, which has no sample, gets 60. For a
  cell whose cycles are 0 and 1 the rows get the means of their own cycles, as they do
  whenever the cycle numbers present are \<open>0, \<dots>, k - 1\<close>.
\<close>

theorem cycle_means_joined_by_position:
  "(\<exists>cell'. append_estimates cell_gap output_gap = Inr cell'
      \<and> df_getitem (raw_data cell') ''cycle_number'' = Inr [Some 0, Some 0, Some 2]
      \<and> df_getitem (raw_data cell') ''est_soc'' = Inr [Some 10, Some 20, Some 60]
      \<and> df_getitem (cycle_stats cell') ''cycle_number'' = Inr [Some 0, Some 1, Some 2]
      \<and> df_getitem (cycle_stats cell') ''est_soc'' = Inr [Some 15, Some 60, None])
   \<and> mean (group_rows [Some 0, Some 0, Some 2] 2 [Some 10, Some 20, Some 60]) = Some 60
   \<and> mean (group_rows [Some 0, Some 0, Some 2] 1 [Some 10, Some 20, Some 60]) = None
   \<and> (\<exists>cell'. append_estimates data2 output_gap = Inr cell'
      \<and> df_getitem (raw_data cell') ''cycle_number'' = Inr [Some 0, Some 0, Some 1]
      \<and> df_getitem (cycle_stats cell') ''cycle_number'' = Inr [Some 0, Some 1]
      \<and> df_getitem (cycle_stats cell') ''est_soc'' = Inr [Some 15, Some 60])"
  by (simp add: frame_ops inputs cell_gap_def output_gap_def)

subsection \<open>The covariances handed to the factory\<close>

text \<open>Diagonal matrices with non-negative entries are symmetric and positive
  semi-definite, and \<^verbatim>\<open>create_estimator\<close> builds only such matrices.\<close>

lemma nth_np_diag:
  "i < length v \<Longrightarrow> j < length v \<Longrightarrow> np_diag v ! i ! j = (if i = j then v ! i else 0)"
  by (simp add: np_diag_def)

lemma nth_scaled_eye:
  "i < n \<Longrightarrow> j < n \<Longrightarrow> scale c (np_eye n) ! i ! j = (if i = j then c else 0)"
  by (simp add: scale_def np_eye_def)

lemma length_np_diag: "length (np_diag v) = length v"
  by (simp add: np_diag_def)

lemma length_scaled_eye: "length (scale c (np_eye n)) = n"
  by (simp add: scale_def np_eye_def)

lemma diagonal_nonneg_np_diag:
  assumes "\<forall>x \<in> set v. 0 \<le> x"
  shows "diagonal_nonneg (np_diag v)"
proof -
  have sq: "is_square (np_diag v)"
    by (simp add: is_square_def np_diag_def list_all_iff)
  have "\<And>i j. i < length v \<Longrightarrow> j < length v \<Longrightarrow>
      (if i = j then 0 \<le> np_diag v ! i ! j else np_diag v ! i ! j = 0)"
    using assms by (simp add: nth_np_diag)
  then show ?thesis using sq
    by (simp add: diagonal_nonneg_def list_all_iff length_np_diag)
qed

lemma diagonal_nonneg_scaled_eye:
  assumes "0 \<le> c"
  shows "diagonal_nonneg (scale c (np_eye n))"
proof -
  have sq: "is_square (scale c (np_eye n))"
    by (simp add: is_square_def scale_def np_eye_def list_all_iff)
  have "\<And>i j. i < n \<Longrightarrow> j < n \<Longrightarrow>
      (if i = j then 0 \<le> scale c (np_eye n) ! i ! j else scale c (np_eye n) ! i ! j = 0)"
    using assms by (simp add: nth_scaled_eye)
  then show ?thesis using sq
    by (simp add: diagonal_nonneg_def list_all_iff length_scaled_eye)
qed

lemma diagonal_nonneg_entries:
  assumes "diagonal_nonneg M" and "i < length M" and "j < length M"
  shows "M ! i ! j = (if i = j then M ! i ! i else 0)" and "0 \<le> M ! i ! i"
proof -
  from assms(1) have all: "\<forall>i \<in> set [0..<length M]. \<forall>j \<in> set [0..<length M].
      (if i = j then 0 \<le> M ! i ! j else M ! i ! j = 0)"
    unfolding diagonal_nonneg_def list_all_iff by blast
  have ij: "if i = j then 0 \<le> M ! i ! j else M ! i ! j = 0"
    using all assms(2,3) by simp
  have ii: "if i = i then 0 \<le> M ! i ! i else M ! i ! i = 0"
    using all assms(2) by simp
  show "M ! i ! j = (if i = j then M ! i ! i else 0)"
    using ij by (cases "i = j") simp_all
  show "0 \<le> M ! i ! i" using ii by simp
qed

lemma diagonal_nonneg_symmetric:
  assumes "diagonal_nonneg M"
  shows "is_symmetric M"
proof -
  have "M ! i ! j = M ! j ! i" if "i < length M" and "j < length M" for i j
  proof (cases "i = j")
    case True
    then show ?thesis by simp
  next
    case False
    have "M ! i ! j = 0" using diagonal_nonneg_entries(1) [OF assms that] False by simp
    moreover have "M ! j ! i = 0"
      using diagonal_nonneg_entries(1) [OF assms that(2,1)] False by simp
    ultimately show ?thesis by simp
  qed
  then show ?thesis using assms
    by (simp add: is_symmetric_def diagonal_nonneg_def list_all_iff)
qed

lemma diagonal_nonneg_psd:
  assumes "diagonal_nonneg M"
  shows "positive_semidefinite M"
  unfolding positive_semidefinite_def
proof (intro allI impI)
  fix x :: "real list"
  assume "length x = length M"
  have row: "(\<Sum>j<length M. x ! i * (M ! i ! j) * x ! j) = M ! i ! i * (x ! i)\<^sup>2"
    if i: "i < length M" for i
  proof -
    have "(\<Sum>j<length M. x ! i * (M ! i ! j) * x ! j)
        = (\<Sum>j<length M. if i = j then x ! i * (M ! i ! i) * x ! i else 0)"
    proof (rule sum.cong)
      fix j assume "j \<in> {..<length M}"
      then have "M ! i ! j = (if i = j then M ! i ! i else 0)"
        using diagonal_nonneg_entries(1) [OF assms i] by simp
      then show "x ! i * (M ! i ! j) * x ! j = (if i = j then x ! i * (M ! i ! i) * x ! i else 0)"
        by (cases "i = j") simp_all
    qed simp
    also have "\<dots> = x ! i * (M ! i ! i) * x ! i"
      using i by (simp add: sum.delta)
    finally show ?thesis by (simp add: power2_eq_square ac_simps)
  qed
  have "quad_form M x = (\<Sum>i<length M. M ! i ! i * (x ! i)\<^sup>2)"
    unfolding quad_form_def by (rule sum.cong) (use row in auto)
  also have "0 \<le> \<dots>"
    by (rule sum_nonneg) (use diagonal_nonneg_entries(2) [OF assms] in auto)
  finally show "0 \<le> quad_form M x" .
qed

lemma create_estimator_cov:
  assumes "create_estimator env ia d h = (Inr est, h')"
  shows "\<exists>q. covariance_asoh est =
            np_diag ((25 / 10000 * q) ^ 2 # map (\<lambda>r. (25 / 10000 * r) ^ 2) (r0_base_values (asohs h ! ia)))
    \<and> covariance_transient est = np_diag [1 / 12, 25 / 10 ^ 8]
    \<and> transient_covariance_process_noise est = scale (1 / 10 ^ 8) (np_eye 2)
    \<and> asoh_covariance_process_noise est
        = scale (1 / 10 ^ 10) (np_eye (Suc (length (r0_base_values (asohs h ! ia)))))
    \<and> covariance_sensor_noise est = scale ((1 / 1000 / 2) ^ 2) (np_eye 1)"
  using assms
  by (auto simp: create_estimator_def Let_def new_transient_def model_copy_deep_def np_diag_def
           split: if_splits sum.splits)

lemma create_estimator_covariances:
  assumes "create_estimator env ia d h = (Inr est, h')"
  shows "\<forall>M \<in> set (covariances est). diagonal_nonneg M"
proof -
  let ?r0 = "r0_base_values (asohs h ! ia)"
  from create_estimator_cov [OF assms] obtain q where est:
    "covariance_asoh est = np_diag ((25 / 10000 * q) ^ 2 # map (\<lambda>r. (25 / 10000 * r) ^ 2) ?r0)"
    "covariance_transient est = np_diag [1 / 12, 25 / 10 ^ 8]"
    "transient_covariance_process_noise est = scale (1 / 10 ^ 8) (np_eye 2)"
    "asoh_covariance_process_noise est = scale (1 / 10 ^ 10) (np_eye (Suc (length ?r0)))"
    "covariance_sensor_noise est = scale ((1 / 1000 / 2) ^ 2) (np_eye 1)"
    by blast
  have "diagonal_nonneg (np_diag ((25 / 10000 * q) ^ 2 # map (\<lambda>r. (25 / 10000 * r) ^ 2) ?r0))"
    by (rule diagonal_nonneg_np_diag) auto
  moreover have "diagonal_nonneg (np_diag [1 / 12, 25 / 10 ^ 8])"
    by (rule diagonal_nonneg_np_diag) auto
  moreover have "diagonal_nonneg (scale (1 / 10 ^ 8) (np_eye 2))"
    by (rule diagonal_nonneg_scaled_eye) simp
  moreover have "diagonal_nonneg (scale (1 / 10 ^ 10) (np_eye (Suc (length ?r0))))"
    by (rule diagonal_nonneg_scaled_eye) simp
  moreover have "diagonal_nonneg (scale ((1 / 1000 / 2) ^ 2) (np_eye 1))"
    by (rule diagonal_nonneg_scaled_eye) simp
  ultimately show ?thesis unfolding covariances_def est by simp
qed

text \<open>
  Claim C4. Whenever \<^verbatim>\<open>create_estimator\<close> reaches the factory call, each of the five
  covariance arguments (parameters, transients, the two process-noise blocks and the
  sensor noise) is diagonal with non-negative entries, hence symmetric and positive
  semi-definite, and the factory's validation accepts them: it does not fail with
  \<^verbatim>\<open>InvalidCovarianceError\<close>.
\<close>

theorem covariances_diagonal_nonnegative:
  assumes "create_estimator env ia d h = (Inr est, h')"
  shows "(\<forall>M \<in> set (covariances est).
            diagonal_nonneg M \<and> is_symmetric M \<and> positive_semidefinite M)
     \<and> initialize_unscented_kalman_filter est = Inr est"
proof -
  have all: "\<forall>M \<in> set (covariances est).
      diagonal_nonneg M \<and> is_symmetric M \<and> positive_semidefinite M"
    using create_estimator_covariances [OF assms] diagonal_nonneg_symmetric diagonal_nonneg_psd
    by blast
  then have "list_all valid_covariance (covariances est)"
    by (simp add: list_all_iff valid_covariance_def)
  then show ?thesis using all by (simp add: initialize_unscented_kalman_filter_def)
qed

theorem covariances_diagonal_nonnegative_witness:
  "\<exists>est h. create_estimator env_ok 0 data1 heap0 = (Inr est, h)
     \<and> covariances est =
         [[[1 / 1600, 0, 0], [0, 1 / 1600000000, 0], [0, 0, 1 / 400000000]],
          [[1 / 12, 0], [0, 1 / 4000000]],
          [[1 / 100000000, 0], [0, 1 / 100000000]],
          [[1 / 10000000000, 0, 0], [0, 1 / 10000000000, 0], [0, 0, 1 / 10000000000]],
          [[1 / 4000000]]]
     \<and> list_all diagonal_nonneg (covariances est)
     \<and> list_all is_symmetric (covariances est)
     \<and> list_all positive_semidefinite (covariances est)
     \<and> initialize_unscented_kalman_filter est = Inr est"
proof -
  have "\<exists>est h. create_estimator env_ok 0 data1 heap0 = (Inr est, h)
     \<and> covariances est =
         [[[1 / 1600, 0, 0], [0, 1 / 1600000000, 0], [0, 0, 1 / 400000000]],
          [[1 / 12, 0], [0, 1 / 4000000]],
          [[1 / 100000000, 0], [0, 1 / 100000000]],
          [[1 / 10000000000, 0, 0], [0, 1 / 10000000000, 0], [0, 0, 1 / 10000000000]],
          [[1 / 4000000]]]"
    by (simp add: covariances_def estimator_ops frame_ops inputs power2_eq_square eval_nat_numeral)
  then obtain est h where ce: "create_estimator env_ok 0 data1 heap0 = (Inr est, h)"
    and cov: "covariances est =
         [[[1 / 1600, 0, 0], [0, 1 / 1600000000, 0], [0, 0, 1 / 400000000]],
          [[1 / 12, 0], [0, 1 / 4000000]],
          [[1 / 100000000, 0], [0, 1 / 100000000]],
          [[1 / 10000000000, 0, 0], [0, 1 / 10000000000, 0], [0, 0, 1 / 10000000000]],
          [[1 / 4000000]]]"
    by blast
  from covariances_diagonal_nonnegative [OF ce]
  have "list_all diagonal_nonneg (covariances est)
     \<and> list_all is_symmetric (covariances est)
     \<and> list_all positive_semidefinite (covariances est)
     \<and> initialize_unscented_kalman_filter est = Inr est"
    by (simp add: list_all_iff)
  then show ?thesis using ce cov by blast
qed

end
